theory Spec2Isabelle
  imports Complex_Main
begin

section \<open>Conventions of the embedding\<close>

text \<open>
  The engine is TypeScript. A \<^verbatim>\<open>number\<close> that the data contract calls finite is a
  \<^typ>\<open>real\<close>. A number that can be non-finite (the result of a division by zero,
  \<^verbatim>\<open>Math.max()\<close> of nothing, the square root of a negative number, a field parsed from
  a text input) is a \<open>jsnum\<close>, defined further down, which adds the two infinities and
  NaN. The price-ratio formula of \<^verbatim>\<open>utils.ts\<close> is modelled with the rounding of every
  operation to a double, since its results depend on it in the last digits and at the
  ends of the range; the scores and thresholds of the two engines are modelled in
  exact arithmetic. A \<^verbatim>\<open>Date\<close> is its time value, an \<^typ>\<open>int\<close> of milliseconds, and
  \<^verbatim>\<open>Date.now()\<close> is a parameter \<open>now\<close> of every function that reads the clock.
  Strings are \<^typ>\<open>string\<close>. The protocol table of \<^verbatim>\<open>api.ts\<close> is read as JavaScript
  reads a property of a plain object: an own key, else a key inherited from
  \<^verbatim>\<open>Object.prototype\<close>, else \<^verbatim>\<open>undefined\<close>. Field names shared by two interfaces carry a
  prefix in one of them.
\<close>

section \<open>Numbers that may be non-finite\<close>

text \<open>
  The value of an arithmetic expression over finite numbers: a real, one of the two
  infinities, or NaN. The operations follow IEEE 754 as JavaScript exposes it. They
  return the exact finite result; the rounding of that result to a double is a step of
  its own, defined in the next section. Zero is unsigned (taken as \<open>+0\<close>, so a positive
  number divided by zero is \<open>+Infinity\<close>).
\<close>

datatype jsnum = Num real | PosInf | NegInf | NaN

fun jadd :: "jsnum \<Rightarrow> jsnum \<Rightarrow> jsnum" where
  "jadd (Num a) (Num b) = Num (a + b)"
| "jadd NaN y = NaN"
| "jadd x NaN = NaN"
| "jadd PosInf NegInf = NaN"
| "jadd NegInf PosInf = NaN"
| "jadd PosInf y = PosInf"
| "jadd x PosInf = PosInf"
| "jadd NegInf y = NegInf"
| "jadd x NegInf = NegInf"

fun jneg :: "jsnum \<Rightarrow> jsnum" where
  "jneg (Num a) = Num (- a)"
| "jneg PosInf = NegInf"
| "jneg NegInf = PosInf"
| "jneg NaN = NaN"

text \<open>The sign of an infinite product or quotient; zero times infinity is NaN.\<close>

fun jmul :: "jsnum \<Rightarrow> jsnum \<Rightarrow> jsnum" where
  "jmul (Num a) (Num b) = Num (a * b)"
| "jmul NaN y = NaN"
| "jmul x NaN = NaN"
| "jmul (Num a) PosInf = (if a = 0 then NaN else if a > 0 then PosInf else NegInf)"
| "jmul (Num a) NegInf = (if a = 0 then NaN else if a > 0 then NegInf else PosInf)"
| "jmul PosInf (Num b) = (if b = 0 then NaN else if b > 0 then PosInf else NegInf)"
| "jmul NegInf (Num b) = (if b = 0 then NaN else if b > 0 then NegInf else PosInf)"
| "jmul PosInf PosInf = PosInf"
| "jmul PosInf NegInf = NegInf"
| "jmul NegInf PosInf = NegInf"
| "jmul NegInf NegInf = PosInf"

fun jdiv :: "jsnum \<Rightarrow> jsnum \<Rightarrow> jsnum" where
  "jdiv (Num a) (Num b) =
     (if b \<noteq> 0 then Num (a / b)
      else if a = 0 then NaN else if a > 0 then PosInf else NegInf)"
| "jdiv NaN y = NaN"
| "jdiv x NaN = NaN"
| "jdiv (Num a) PosInf = Num 0"
| "jdiv (Num a) NegInf = Num 0"
| "jdiv PosInf (Num b) = (if b \<ge> 0 then PosInf else NegInf)"
| "jdiv NegInf (Num b) = (if b \<ge> 0 then NegInf else PosInf)"
| "jdiv PosInf PosInf = NaN"
| "jdiv PosInf NegInf = NaN"
| "jdiv NegInf PosInf = NaN"
| "jdiv NegInf NegInf = NaN"

fun jabs :: "jsnum \<Rightarrow> jsnum" where
  "jabs (Num a) = Num \<bar>a\<bar>"
| "jabs PosInf = PosInf"
| "jabs NegInf = PosInf"
| "jabs NaN = NaN"

text \<open>The usual symbols, so that the formulas below read as in the source.\<close>

instantiation jsnum :: "{plus, uminus, minus, times, inverse, abs}"
begin

definition plus_jsnum :: "jsnum \<Rightarrow> jsnum \<Rightarrow> jsnum" where
  "plus_jsnum x y = jadd x y"

definition uminus_jsnum :: "jsnum \<Rightarrow> jsnum" where
  "uminus_jsnum x = jneg x"

definition minus_jsnum :: "jsnum \<Rightarrow> jsnum \<Rightarrow> jsnum" where
  "minus_jsnum x y = jadd x (jneg y)"

definition times_jsnum :: "jsnum \<Rightarrow> jsnum \<Rightarrow> jsnum" where
  "times_jsnum x y = jmul x y"

definition divide_jsnum :: "jsnum \<Rightarrow> jsnum \<Rightarrow> jsnum" where
  "divide_jsnum x y = jdiv x y"

definition inverse_jsnum :: "jsnum \<Rightarrow> jsnum" where
  "inverse_jsnum x = jdiv (Num 1) x"

definition abs_jsnum :: "jsnum \<Rightarrow> jsnum" where
  "abs_jsnum x = jabs x"

instance ..

end

declare plus_jsnum_def [simp] uminus_jsnum_def [simp] minus_jsnum_def [simp]
  times_jsnum_def [simp] divide_jsnum_def [simp] inverse_jsnum_def [simp] abs_jsnum_def [simp]

text \<open>Comparisons are false as soon as one side is NaN.\<close>

fun jlt :: "jsnum \<Rightarrow> jsnum \<Rightarrow> bool" where
  "jlt (Num a) (Num b) = (a < b)"
| "jlt NaN y = False"
| "jlt x NaN = False"
| "jlt x NegInf = False"
| "jlt PosInf y = False"
| "jlt NegInf y = True"
| "jlt x PosInf = True"

definition jgt :: "jsnum \<Rightarrow> jsnum \<Rightarrow> bool" where
  "jgt x y = jlt y x"

fun jle :: "jsnum \<Rightarrow> jsnum \<Rightarrow> bool" where
  "jle (Num a) (Num b) = (a \<le> b)"
| "jle NaN y = False"
| "jle x NaN = False"
| "jle NegInf y = True"
| "jle x PosInf = True"
| "jle (Num a) NegInf = False"
| "jle PosInf y = False"

text \<open>\<^verbatim>\<open>Math.min\<close> and \<^verbatim>\<open>Math.max\<close> of two arguments: NaN if either is.\<close>

fun jmin :: "jsnum \<Rightarrow> jsnum \<Rightarrow> jsnum" where
  "jmin (Num a) (Num b) = Num (min a b)"
| "jmin NaN y = NaN"
| "jmin x NaN = NaN"
| "jmin NegInf y = NegInf"
| "jmin x NegInf = NegInf"
| "jmin PosInf y = y"
| "jmin x PosInf = x"

fun jmax :: "jsnum \<Rightarrow> jsnum \<Rightarrow> jsnum" where
  "jmax (Num a) (Num b) = Num (max a b)"
| "jmax NaN y = NaN"
| "jmax x NaN = NaN"
| "jmax PosInf y = PosInf"
| "jmax x PosInf = PosInf"
| "jmax NegInf y = y"
| "jmax x NegInf = x"


text \<open>\<^verbatim>\<open>Math.round\<close> rounds half up; \<^verbatim>\<open>Math.sqrt\<close> of a negative number is NaN.\<close>

fun jround :: "jsnum \<Rightarrow> jsnum" where
  "jround (Num a) = Num (of_int \<lfloor>a + 1 / 2\<rfloor>)"
| "jround x = x"

fun jsqrt :: "jsnum \<Rightarrow> jsnum" where
  "jsqrt (Num a) = (if a < 0 then NaN else Num (sqrt a))"
| "jsqrt PosInf = PosInf"
| "jsqrt NegInf = NaN"
| "jsqrt NaN = NaN"



section \<open>Rounding to a double\<close>

text \<open>
  A JavaScript number is an IEEE 754 binary64: a sign, a significand of 53 bits and an
  exponent, so that around a real \<open>x\<close> neighbouring doubles are \<open>2 ^ e\<close> apart, where
  \<open>e\<close> is \<open>\<lfloor>log\<^sub>2 \<bar>x\<bar>\<rfloor> - 52\<close> and never less than \<open>-1074\<close> (the subnormal range).
  The operators \<^verbatim>\<open>+ - * /\<close> and \<^verbatim>\<open>Math.sqrt\<close> return the exact result rounded to the
  nearest double, a tie going to the even significand; a magnitude of
  \<open>2 ^ 1024 - 2 ^ 970\<close> or more rounds to an infinity. \<open>rnd\<close> is that rounding of a
  real; \<open>rn\<close> applies it to the finite case of a \<open>jsnum\<close>.
\<close>

definition round_even :: "real \<Rightarrow> int" where
  "round_even y =
     (let f = \<lfloor>y\<rfloor>; d = y - of_int f
      in if d < 1 / 2 then f else if d > 1 / 2 then f + 1 else if even f then f else f + 1)"

definition ulp_exponent :: "real \<Rightarrow> int" where
  "ulp_exponent x = max (\<lfloor>log 2 \<bar>x\<bar>\<rfloor> - 52) (- 1074)"

definition overflow_threshold :: real where
  "overflow_threshold = 2 ^ 1024 - 2 ^ 970"

definition rnd :: "real \<Rightarrow> jsnum" where
  "rnd x =
     (if x = 0 then Num 0
      else if \<bar>x\<bar> \<ge> overflow_threshold then (if x > 0 then PosInf else NegInf)
      else (let q = 2 powr of_int (ulp_exponent x)
            in Num (of_int (round_even (x / q)) * q)))"

fun rn :: "jsnum \<Rightarrow> jsnum" where
  "rn (Num x) = rnd x"
| "rn PosInf = PosInf"
| "rn NegInf = NegInf"
| "rn NaN = NaN"

section \<open>Data model (src/lib/types.ts, src/lib/rebalancing.ts)\<close>

record LPPosition =
  positionId :: string
  userId :: string
  pos_protocol :: string
  poolAddress :: string
  token0 :: string
  token1 :: string
  amount0 :: real
  amount1 :: real
  depositTimestamp :: int
  currentValue :: real
  pos_riskScore :: real

record PoolData =
  protocol :: string
  pair :: string
  apy :: real
  tvl :: real
  volume24h :: real
  fees24h :: real
  riskScore :: real

text \<open>The string unions \<^verbatim>\<open>'low' | 'medium' | 'high'\<close> and the four actions.\<close>

datatype Level = Low | Medium | High

datatype Action = Rebalance | Exit | Adjust | Hold

text \<open>
  The three numeric fields of a strategy come from user input (the settings page passes
  \<^verbatim>\<open>parseFloat\<close> of a text field, which is NaN for an empty field), so they are
  \<open>jsnum\<close>; the metrics of positions and pools are finite by the adapter's contract.
  The \<^verbatim>\<open>description\<close> of a strategy is a fixed text for the built-in strategies and a
  template over two numbers for a custom one; the template is kept with its arguments.
\<close>

datatype Description = Text string | CustomTargeting jsnum jsnum

record RebalancingStrategy =
  sid :: string
  sname :: string
  description :: Description
  targetAPY :: jsnum
  maxImpermanentLoss :: jsnum
  riskTolerance :: Level
  rebalanceThreshold :: jsnum
  enabled :: bool

text \<open>
  The \<^verbatim>\<open>reason\<close> of a recommendation is one of five templates, each over the number
  (and, once, the tolerance) it interpolates; \<^verbatim>\<open>toFixed(2)\<close> is not rendered.
\<close>

datatype Reason =
    ILExceedsMaximum real
  | APYBelowTarget real
  | RiskExceedsTolerance real Level
  | ILApproachingMaximum real
  | PerformingWithin real

record RebalancingRecommendation =
  rec_positionId :: string
  action :: Action
  reason :: Reason
  urgency :: Level
  expectedGain :: "real option"
  riskReduction :: "jsnum option"
  newPool :: "PoolData option"
  estimatedCost :: "real option"

record RebalancingAnalysis =
  totalPositions :: nat
  positionsAtRisk :: nat
  underperformingPositions :: nat
  totalPotentialGain :: real
  recommendations :: "RebalancingRecommendation list"
  lastAnalysis :: int

section \<open>Strategy registry (src/lib/rebalancing.ts)\<close>

text \<open>Decimal rendering of an integer, as a template literal prints \<^verbatim>\<open>Date.now()\<close>.\<close>

definition digit_char :: "nat \<Rightarrow> char" where
  "digit_char d = ''0123456789'' ! d"

fun show_nat :: "nat \<Rightarrow> string" where
  "show_nat n = (if n < 10 then [digit_char n] else show_nat (n div 10) @ [digit_char (n mod 10)])"

declare show_nat.simps [simp del]

definition show_int :: "int \<Rightarrow> string" where
  "show_int i = (if i < 0 then CHR ''-'' # show_nat (nat (- i)) else show_nat (nat i))"

definition createCustomStrategy ::
  "int \<Rightarrow> string \<Rightarrow> jsnum \<Rightarrow> jsnum \<Rightarrow> Level \<Rightarrow> RebalancingStrategy" where
  "createCustomStrategy now nm tAPY maxIL tol =
     \<lparr> sid = ''custom-'' @ show_int now,
       sname = nm,
       description = CustomTargeting tAPY maxIL,
       targetAPY = tAPY,
       maxImpermanentLoss = maxIL,
       riskTolerance = tol,
       rebalanceThreshold = (if tol = Low then Num 10 else if tol = Medium then Num 15 else Num 20),
       enabled = False \<rparr>"

definition validateStrategy :: "RebalancingStrategy \<Rightarrow> string list" where
  "validateStrategy strategy =
     (let errors = [];
          errors = (if jlt (targetAPY strategy) (Num 0) \<or> jgt (targetAPY strategy) (Num 100)
                    then errors @ [''Target APY must be between 0% and 100%''] else errors);
          errors = (if jlt (maxImpermanentLoss strategy) (Num 0)
                       \<or> jgt (maxImpermanentLoss strategy) (Num 50)
                    then errors @ [''Max impermanent loss must be between 0% and 50%''] else errors);
          errors = (if jlt (rebalanceThreshold strategy) (Num 5)
                       \<or> jgt (rebalanceThreshold strategy) (Num 50)
                    then errors @ [''Rebalance threshold must be between 5% and 50%''] else errors)
      in errors)"

section \<open>Rebalancing policy engine (src/lib/rebalancing.ts)\<close>

definition DEFAULT_STRATEGIES :: "RebalancingStrategy list" where
  "DEFAULT_STRATEGIES =
     [ \<lparr> sid = ''conservative'', sname = ''Conservative Growth'',
         description = Text ''Focus on stable yields with minimal impermanent loss risk'',
         targetAPY = Num 5, maxImpermanentLoss = Num 2, riskTolerance = Low,
         rebalanceThreshold = Num 10, enabled = False \<rparr>,
       \<lparr> sid = ''balanced'', sname = ''Balanced Optimization'',
         description = Text ''Balance between yield and risk for steady growth'',
         targetAPY = Num 8, maxImpermanentLoss = Num 5, riskTolerance = Medium,
         rebalanceThreshold = Num 15, enabled = False \<rparr>,
       \<lparr> sid = ''aggressive'', sname = ''Aggressive Yield'',
         description = Text ''Maximize yields with higher risk tolerance'',
         targetAPY = Num 15, maxImpermanentLoss = Num 10, riskTolerance = High,
         rebalanceThreshold = Num 20, enabled = False \<rparr> ]"

text \<open>\<^verbatim>\<open>s.includes(sub)\<close>: \<open>sub\<close> occurs in \<open>s\<close> as a contiguous substring
  (\<open>includes\<close> is a reserved word of the prover).\<close>

fun str_includes :: "string \<Rightarrow> string \<Rightarrow> bool" where
  "str_includes [] sub = (sub = [])"
| "str_includes (c # cs) sub = (take (length sub) (c # cs) = sub \<or> str_includes cs sub)"

text \<open>
  \<^verbatim>\<open>Math.floor((Date.now() - depositTimestamp.getTime()) / 86400000)\<close> is the floor
  division of integers; the estimate is \<^verbatim>\<open>Math.min(days * 0.1, 15)\<close>.
\<close>

definition estimateImpermanentLoss :: "int \<Rightarrow> LPPosition \<Rightarrow> real" where
  "estimateImpermanentLoss now position =
     (let daysSinceDeposit = (now - depositTimestamp position) div (1000 * 60 * 60 * 24)
      in min (real_of_int daysSinceDeposit * 0.1) 15)"

definition estimateTransactionCost :: "LPPosition \<Rightarrow> real" where
  "estimateTransactionCost position = 50"

fun isRiskTooHigh :: "real \<Rightarrow> Level \<Rightarrow> bool" where
  "isRiskTooHigh rs Low = (rs > 40)"
| "isRiskTooHigh rs Medium = (rs > 60)"
| "isRiskTooHigh rs High = (rs > 80)"

definition isRiskAcceptable :: "real \<Rightarrow> Level \<Rightarrow> bool" where
  "isRiskAcceptable rs tolerance = (\<not> isRiskTooHigh rs tolerance)"

definition sameTokens :: "LPPosition \<Rightarrow> PoolData \<Rightarrow> bool" where
  "sameTokens position pool =
     ((str_includes (pair pool) (token0 position) \<and> str_includes (pair pool) (token1 position)) \<or>
      (str_includes (pair pool) (token1 position) \<and> str_includes (pair pool) (token0 position)))"

text \<open>
  \<^verbatim>\<open>candidatePools.reduce((best, current) => ..., null)\<close>: a left fold from \<open>None\<close>
  that keeps the earlier pool unless a later one scores strictly higher.
\<close>

definition pickBest :: "(PoolData \<Rightarrow> real) \<Rightarrow> PoolData list \<Rightarrow> PoolData option" where
  "pickBest score candidatePools =
     foldl (\<lambda>best current.
              case best of
                None \<Rightarrow> Some current
              | Some b \<Rightarrow> if score current > score b then Some current else Some b)
           None candidatePools"

definition findBetterPool ::
  "RebalancingStrategy \<Rightarrow> PoolData list \<Rightarrow> LPPosition \<Rightarrow> PoolData \<Rightarrow> PoolData option" where
  "findBetterPool strategy availablePools position currentPool =
     (let candidatePools =
            filter (\<lambda>pool.
                      let betterAPY = (apy pool > apy currentPool * 1.1);
                          acceptableRisk = isRiskAcceptable (riskScore pool) (riskTolerance strategy)
                      in sameTokens position pool \<and> betterAPY \<and> acceptableRisk)
                   availablePools
      in pickBest (\<lambda>p. apy p - riskScore p * 0.1) candidatePools)"

definition findSaferPool :: "PoolData list \<Rightarrow> LPPosition \<Rightarrow> PoolData \<Rightarrow> PoolData option" where
  "findSaferPool availablePools position currentPool =
     (let candidatePools =
            filter (\<lambda>pool.
                      let lowerRisk = (riskScore pool < riskScore currentPool * 0.8);
                          reasonableAPY = (apy pool > apy currentPool * 0.7)
                      in sameTokens position pool \<and> lowerRisk \<and> reasonableAPY)
                   availablePools
      in pickBest (\<lambda>p. apy p - riskScore p) candidatePools)"

definition calculatePotentialGain :: "LPPosition \<Rightarrow> PoolData \<Rightarrow> PoolData \<Rightarrow> real" where
  "calculatePotentialGain position currentPool newPool' =
     (let apyDifference = apy newPool' - apy currentPool
      in (currentValue position * apyDifference) / 100)"

text \<open>
  The four checks of \<open>evaluatePosition\<close> in source order. A check whose inner search
  finds no pool falls through to the next check, as the source's nested \<^verbatim>\<open>if\<close> does.
  The comparisons against the strategy's numbers are JavaScript's, false on NaN.
\<close>

definition evaluatePosition ::
  "RebalancingStrategy \<Rightarrow> PoolData list \<Rightarrow> LPPosition \<Rightarrow> PoolData \<Rightarrow> real \<Rightarrow> real \<Rightarrow> real
     \<Rightarrow> RebalancingRecommendation" where
  "evaluatePosition strategy availablePools position currentPool currentAPY impermanentLoss rs =
     (if jgt (Num impermanentLoss) (maxImpermanentLoss strategy * Num 2) then
        \<lparr> rec_positionId = positionId position, action = Exit,
          reason = ILExceedsMaximum impermanentLoss, urgency = High,
          expectedGain = None, riskReduction = Some (Num impermanentLoss),
          newPool = None, estimatedCost = Some (estimateTransactionCost position) \<rparr>
      else
        case (if jlt (Num currentAPY) (targetAPY strategy * Num 0.7)
              then findBetterPool strategy availablePools position currentPool else None) of
          Some betterPool \<Rightarrow>
            (let potentialGain = calculatePotentialGain position currentPool betterPool
             in \<lparr> rec_positionId = positionId position, action = Rebalance,
                  reason = APYBelowTarget currentAPY,
                  urgency = (if jgt (Num potentialGain) (rebalanceThreshold strategy)
                             then High else Medium),
                  expectedGain = Some potentialGain, riskReduction = None,
                  newPool = Some betterPool,
                  estimatedCost = Some (estimateTransactionCost position) \<rparr>)
        | None \<Rightarrow>
            (case (if isRiskTooHigh rs (riskTolerance strategy)
                   then findSaferPool availablePools position currentPool else None) of
               Some saferPool \<Rightarrow>
                 \<lparr> rec_positionId = positionId position, action = Adjust,
                   reason = RiskExceedsTolerance rs (riskTolerance strategy), urgency = Medium,
                   expectedGain = None, riskReduction = Some (Num (rs - riskScore saferPool)),
                   newPool = Some saferPool,
                   estimatedCost = Some (estimateTransactionCost position) \<rparr>
             | None \<Rightarrow>
                 if jgt (Num impermanentLoss) (maxImpermanentLoss strategy) then
                   \<lparr> rec_positionId = positionId position, action = Adjust,
                     reason = ILApproachingMaximum impermanentLoss, urgency = Medium,
                     expectedGain = None,
                     riskReduction = Some (Num impermanentLoss - maxImpermanentLoss strategy),
                     newPool = None, estimatedCost = Some (estimateTransactionCost position) \<rparr>
                 else
                   \<lparr> rec_positionId = positionId position, action = Hold,
                     reason = PerformingWithin currentAPY, urgency = Low,
                     expectedGain = None, riskReduction = None,
                     newPool = None, estimatedCost = None \<rparr>))"

text \<open>The pool of a position: the first pool whose pair is one of the two labels.\<close>

definition matchesPosition :: "LPPosition \<Rightarrow> PoolData \<Rightarrow> bool" where
  "matchesPosition position pool =
     (pair pool = token0 position @ ''/'' @ token1 position \<or>
      pair pool = token1 position @ ''/'' @ token0 position)"

definition analyzePosition ::
  "RebalancingStrategy \<Rightarrow> int \<Rightarrow> PoolData list \<Rightarrow> LPPosition \<Rightarrow> RebalancingRecommendation option" where
  "analyzePosition strategy now availablePools position =
     (case find (matchesPosition position) availablePools of
        None \<Rightarrow> None
      | Some currentPool \<Rightarrow>
          (let currentAPY = apy currentPool;
               estimatedIL = estimateImpermanentLoss now position;
               rs = riskScore currentPool
           in Some (evaluatePosition strategy availablePools position currentPool
                      currentAPY estimatedIL rs)))"

text \<open>
  The loop of \<open>analyzePositions\<close> over the fetched positions, with its four running
  variables. \<^verbatim>\<open>if (analysis.expectedGain)\<close> is true for a gain that is present and not
  zero. The two fetches are the arguments \<open>positions\<close> and \<open>availablePools\<close>, and
  the clock reads of one run all return \<open>now\<close>.
\<close>

definition analyzeStep ::
  "RebalancingStrategy \<Rightarrow> int \<Rightarrow> PoolData list
     \<Rightarrow> RebalancingRecommendation list \<times> nat \<times> nat \<times> real \<Rightarrow> LPPosition
     \<Rightarrow> RebalancingRecommendation list \<times> nat \<times> nat \<times> real" where
  "analyzeStep strategy now availablePools st position =
     (case st of (recs, atRisk, underperforming, gain) \<Rightarrow>
        (case analyzePosition strategy now availablePools position of
           None \<Rightarrow> (recs, atRisk, underperforming, gain)
         | Some analysis \<Rightarrow>
             (recs @ [analysis],
              (if urgency analysis = High then atRisk + 1 else atRisk),
              (if action analysis = Rebalance \<or> action analysis = Exit
               then underperforming + 1 else underperforming),
              (case expectedGain analysis of
                 None \<Rightarrow> gain
               | Some g \<Rightarrow> if g \<noteq> 0 then gain + g else gain))))"

definition analyzePositions ::
  "RebalancingStrategy \<Rightarrow> int \<Rightarrow> LPPosition list \<Rightarrow> PoolData list \<Rightarrow> RebalancingAnalysis" where
  "analyzePositions strategy now positions availablePools =
     (case foldl (analyzeStep strategy now availablePools) ([], 0, 0, 0) positions of
        (recs, atRisk, underperforming, gain) \<Rightarrow>
          \<lparr> totalPositions = length positions,
            positionsAtRisk = atRisk,
            underperformingPositions = underperforming,
            totalPotentialGain = gain,
            recommendations = recs,
            lastAnalysis = now \<rparr>)"

section \<open>Impermanent loss from a price ratio (src/lib/utils.ts)\<close>

text \<open>
  The second parameter has the default 1. The arguments are finite doubles; every
  operation of the body is followed by the rounding of its result, as the engine
  computes it. A zero \<open>initialRatio\<close>, a negative quotient, or a quotient too large for a
  double ends in NaN (through \<open>Infinity / Infinity\<close> or the square root). The sign of a
  zero does not reach the result: the square root of \<open>-0\<close> is \<open>-0\<close>, and \<open>1 + ratio\<close> is
  never a zero.
\<close>

definition calculateImpermanentLoss :: "real \<Rightarrow> real \<Rightarrow> jsnum" where
  "calculateImpermanentLoss priceRatio initialRatio =
     (let ratio = rn (Num priceRatio / Num initialRatio);
          il = rn (rn (rn (Num 2 * rn (jsqrt ratio)) / rn (Num 1 + ratio)) - Num 1)
      in rn (\<bar>il\<bar> * Num 100))"

section \<open>Pool-level risk engine (src/lib/api.ts, RiskAssessmentEngine)\<close>

text \<open>
  \<open>config.risk\<close> of the configuration module: the liquidity threshold and the four
  weights of the overall score.
\<close>

record RiskFactors =
  f_smartContract :: jsnum
  f_liquidity :: jsnum
  f_impermanentLoss :: jsnum
  f_protocol :: jsnum

record RiskWeights =
  w_smartContract :: real
  w_liquidity :: real
  w_impermanentLoss :: real
  w_protocol :: real

definition liquidityThreshold :: real where
  "liquidityThreshold = 100000"

definition protocolRiskWeights :: RiskWeights where
  "protocolRiskWeights =
     \<lparr> w_smartContract = 0.3, w_liquidity = 0.25, w_impermanentLoss = 0.25, w_protocol = 0.2 \<rparr>"

text \<open>
  A recommendation text starts with a pictograph that is not ASCII; it is kept as a
  constructor, next to the text that follows it and its space.
\<close>

datatype Icon = Warning | Droplet | ChartDown | Lock | Building | Target | CheckMark
  | Cycle | Scales | Siren | Bullet

type_synonym Msg = "Icon option \<times> string"

record RiskAssessment =
  a_overall :: jsnum
  a_impermanentLoss :: jsnum
  a_smartContract :: jsnum
  a_liquidity :: jsnum
  a_protocol :: jsnum
  a_factors :: RiskFactors
  a_recommendations :: "Msg list"

record ProtocolRiskData =
  prd_name :: string
  auditScore :: real
  tvlHistory :: "real list"
  exploitHistory :: real
  timeInMarket :: real

text \<open>
  \<open>protocolRiskDatabase\<close> is a plain object literal read with \<^verbatim>\<open>table[protocol]\<close>. Besides
  its four own keys such a read finds the properties every object inherits from
  \<^verbatim>\<open>Object.prototype\<close>: a function (an object for \<^verbatim>\<open>__proto__\<close>), which is truthy
  and has none of the fields of an entry.
\<close>

datatype 'a jsprop = Own 'a | Inherited | Missing

definition objectPrototypeKeys :: "string list" where
  "objectPrototypeKeys =
     [''constructor'', ''__proto__'', ''hasOwnProperty'', ''isPrototypeOf'',
      ''propertyIsEnumerable'', ''toLocaleString'', ''toString'', ''valueOf'',
      ''__defineGetter__'', ''__defineSetter__'', ''__lookupGetter__'', ''__lookupSetter__'']"

definition readProperty :: "(string \<times> 'a) list \<Rightarrow> string \<Rightarrow> 'a jsprop" where
  "readProperty table key =
     (case map_of table key of
        Some v \<Rightarrow> Own v
      | None \<Rightarrow> if key \<in> set objectPrototypeKeys then Inherited else Missing)"

definition protocolRiskDatabase :: "string \<Rightarrow> ProtocolRiskData jsprop" where
  "protocolRiskDatabase = readProperty
     [ (''Uniswap V3'', \<lparr> prd_name = ''Uniswap V3'', auditScore = 95,
          tvlHistory = [1000000000, 1100000000, 1200000000],
          exploitHistory = 0, timeInMarket = 1200 \<rparr>),
       (''Aerodrome'', \<lparr> prd_name = ''Aerodrome'', auditScore = 85,
          tvlHistory = [100000000, 150000000, 200000000],
          exploitHistory = 0, timeInMarket = 365 \<rparr>),
       (''BaseSwap'', \<lparr> prd_name = ''BaseSwap'', auditScore = 70,
          tvlHistory = [50000000, 45000000, 40000000],
          exploitHistory = 1, timeInMarket = 180 \<rparr>),
       (''SushiSwap'', \<lparr> prd_name = ''SushiSwap'', auditScore = 80,
          tvlHistory = [500000000, 480000000, 520000000],
          exploitHistory = 2, timeInMarket = 1400 \<rparr>) ]"

text \<open>
  A numeric field of what the read returned: the entry's number, or \<^verbatim>\<open>undefined\<close> for an
  inherited property, which is NaN in arithmetic.
\<close>

definition numField :: "('a \<Rightarrow> real) \<Rightarrow> 'a jsprop \<Rightarrow> jsnum" where
  "numField f entry = (case entry of Own d \<Rightarrow> Num (f d) | _ \<Rightarrow> NaN)"

datatype error = TypeError

definition calculateSmartContractRisk :: "string \<Rightarrow> jsnum" where
  "calculateSmartContractRisk proto =
     (case protocolRiskDatabase proto of
        Missing \<Rightarrow> Num 70
      | protocolData \<Rightarrow>
          (let risk = Num 0;
               auditRisk = jmax (Num 0) (Num 100 - numField auditScore protocolData) * Num 0.4;
               risk = risk + auditRisk;
               exploitRisk = jmin (Num 30) (numField exploitHistory protocolData * Num 15);
               risk = risk + exploitRisk;
               timeRisk = jmax (Num 0)
                            (Num 30 - (numField timeInMarket protocolData / Num 365) * Num 10);
               risk = risk + timeRisk
           in jmin (Num 100) risk))"

text \<open>
  \<open>volume24h / tvl\<close> divides by a pool metric that may be zero, so the running \<open>risk\<close>
  is a \<open>jsnum\<close>; the first division is by the constant threshold.
\<close>

definition calculateLiquidityRisk :: "PoolData \<Rightarrow> jsnum" where
  "calculateLiquidityRisk pool =
     (let risk = Num 0;
          risk = (if tvl pool < liquidityThreshold
                  then (let tvlRatio = tvl pool / liquidityThreshold
                        in risk + Num ((1 - tvlRatio) * 50))
                  else risk);
          volumeToTvlRatio = Num (volume24h pool) / Num (tvl pool);
          risk = (if jlt volumeToTvlRatio (Num 0.1)
                  then risk + (Num 0.1 - volumeToTvlRatio) * Num 300
                  else risk);
          risk = risk + Num 10
      in jmin (Num 100) risk)"

text \<open>\<^verbatim>\<open>toLowerCase\<close> on the ASCII letters.\<close>

definition lowerChar :: "char \<Rightarrow> char" where
  "lowerChar c =
     (case map_of (zip ''ABCDEFGHIJKLMNOPQRSTUVWXYZ'' ''abcdefghijklmnopqrstuvwxyz'') c of
        None \<Rightarrow> c
      | Some l \<Rightarrow> l)"

definition toLowerCase :: "string \<Rightarrow> string" where
  "toLowerCase s = map lowerChar s"

definition calculateImpermanentLossRisk :: "PoolData \<Rightarrow> real" where
  "calculateImpermanentLossRisk pool =
     (let pr = toLowerCase (pair pool);
          risk = (if str_includes pr ''eth'' \<and> str_includes pr ''usdc'' then 35
                  else if str_includes pr ''usdc'' \<and> str_includes pr ''usdt'' then 5
                  else if str_includes pr ''btc'' \<and> str_includes pr ''eth'' then 60
                  else 70);
          risk = (if apy pool > 20 then risk + 15
                  else if apy pool > 10 then risk + 5
                  else risk)
      in min 100 risk)"

text \<open>
  \<open>protocolData.tvlHistory\<close> is \<^verbatim>\<open>undefined\<close> on an inherited property, and reading its
  \<^verbatim>\<open>length\<close> throws a TypeError.
\<close>

definition calculateProtocolRisk :: "string \<Rightarrow> error + jsnum" where
  "calculateProtocolRisk proto =
     (case protocolRiskDatabase proto of
        Missing \<Rightarrow> Inr (Num 60)
      | Inherited \<Rightarrow> Inl TypeError
      | Own protocolData \<Rightarrow>
          (let risk = 0;
               history = tvlHistory protocolData;
               risk = (if length history \<ge> 2
                       then (let recentTrend = Num (history ! (length history - 1))
                                               / Num (history ! (length history - 2))
                             in if jlt recentTrend (Num 0.9) then risk + 30
                                else if jlt recentTrend (Num 0.95) then risk + 15
                                else risk)
                       else risk);
               risk = risk + 15;
               risk = risk + 10
           in Inr (Num (min 100 risk))))"

definition generateRecommendations :: "RiskAssessment \<Rightarrow> PoolData \<Rightarrow> Msg list" where
  "generateRecommendations assessment pool =
     (let recs = [];
          recs = (if jgt (a_overall assessment) (Num 70)
                  then recs @ [(Some Warning, ''High risk position - consider reducing exposure'')]
                  else recs);
          recs = (if jgt (a_liquidity assessment) (Num 60)
                  then recs @ [(Some Droplet, ''Low liquidity detected - monitor for slippage risks'')]
                  else recs);
          recs = (if jgt (a_impermanentLoss assessment) (Num 50)
                  then recs @ [(Some ChartDown, ''High impermanent loss risk - consider stable pairs'')]
                  else recs);
          recs = (if jgt (a_smartContract assessment) (Num 60)
                  then recs @ [(Some Lock, ''Smart contract risks detected - verify protocol audits'')]
                  else recs);
          recs = (if jgt (a_protocol assessment) (Num 50)
                  then recs @ [(Some Building,
                                ''Protocol risks present - diversify across multiple protocols'')]
                  else recs);
          recs = (if apy pool > 15
                  then recs @ [(Some Target,
                                ''High APY may indicate elevated risks - proceed with caution'')]
                  else recs);
          recs = (if length recs = 0
                  then recs @ [(Some CheckMark, ''Risk levels appear manageable for this position'')]
                  else recs)
      in recs)"

definition weightedOverall :: "RiskFactors \<Rightarrow> jsnum" where
  "weightedOverall factors =
     f_smartContract factors * Num (w_smartContract protocolRiskWeights) +
     f_liquidity factors * Num (w_liquidity protocolRiskWeights) +
     f_impermanentLoss factors * Num (w_impermanentLoss protocolRiskWeights) +
     f_protocol factors * Num (w_protocol protocolRiskWeights)"

text \<open>
  \<open>assessPool\<close> builds the four factors in the order of the object literal; the last one
  may throw, and the exception leaves \<open>assessPool\<close>.
\<close>

definition assessPool :: "PoolData \<Rightarrow> error + RiskAssessment" where
  "assessPool pool =
     (case calculateProtocolRisk (protocol pool) of
        Inl e \<Rightarrow> Inl e
      | Inr protocolRisk' \<Rightarrow>
          (let factors = \<lparr> f_smartContract = calculateSmartContractRisk (protocol pool),
                            f_liquidity = calculateLiquidityRisk pool,
                            f_impermanentLoss = Num (calculateImpermanentLossRisk pool),
                            f_protocol = protocolRisk' \<rparr>;
               overall = weightedOverall factors;
               assessment = \<lparr> a_overall = jround overall,
                               a_impermanentLoss = jround (f_impermanentLoss factors),
                               a_smartContract = jround (f_smartContract factors),
                               a_liquidity = jround (f_liquidity factors),
                               a_protocol = jround (f_protocol factors),
                               a_factors = factors,
                               a_recommendations = [] \<rparr>
           in Inr (assessment \<lparr> a_recommendations := generateRecommendations assessment pool \<rparr>)))"



section \<open>Position-level risk engine (the second RiskAssessmentEngine)\<close>

text \<open>
  The module that defines \<open>DetailedRiskAssessment\<close>, \<open>RiskFactor\<close> and
  \<open>PortfolioRiskMetrics\<close>. Its \<open>assessPortfolio\<close> and \<open>generateRecommendations\<close> share
  their names with the pool-level engine and carry the prefix \<open>detailed_\<close> here.
\<close>

datatype Category = CatImpermanentLoss | CatSmartContract | CatLiquidity | CatProtocol
  | CatMarket | CatConcentration


datatype TimeHorizon = Horizon1d | Horizon7d | Horizon30d | Horizon90d

record RiskFactor =
  category :: Category
  rf_name :: string
  score :: jsnum
  weight :: real
  rf_description :: string
  impact :: Level
  likelihood :: Level
  mitigation :: "string option"


























subsection \<open>Portfolio-level calculations\<close>


















section \<open>Sample data (src/lib/utils.ts, generateMockData)\<close>

text \<open>The four \<^verbatim>\<open>liquiditySources\<close> of \<open>generateMockData\<close>, used as concrete inputs.\<close>

definition mockPools :: "PoolData list" where
  "mockPools =
     [ \<lparr> protocol = ''Uniswap V3'', pair = ''WETH/USDC'', apy = 6.60, tvl = 51750000,
         volume24h = 1659130, fees24h = 8740, riskScore = 25 \<rparr>,
       \<lparr> protocol = ''Aerodrome'', pair = ''WETH/USDC'', apy = 8.45, tvl = 23400000,
         volume24h = 892000, fees24h = 4560, riskScore = 35 \<rparr>,
       \<lparr> protocol = ''BaseSwap'', pair = ''WETH/USDC'', apy = 12.3, tvl = 8900000,
         volume24h = 445000, fees24h = 2890, riskScore = 55 \<rparr>,
       \<lparr> protocol = ''SushiSwap'', pair = ''WETH/USDC'', apy = 5.2, tvl = 15600000,
         volume24h = 678000, fees24h = 3240, riskScore = 30 \<rparr> ]"

text \<open>
  A position as \<open>fetchUserPositions\<close> builds one (protocol \<^verbatim>\<open>'Uniswap V3'\<close>), over a
  token pair, with a deposit time and a value.
\<close>

definition mkPosition :: "string \<Rightarrow> string \<Rightarrow> string \<Rightarrow> int \<Rightarrow> real \<Rightarrow> LPPosition" where
  "mkPosition pid t0 t1 deposited val =
     \<lparr> positionId = pid, userId = ''0xabc'', pos_protocol = ''Uniswap V3'',
       poolAddress = ''0xpool'', token0 = t0, token1 = t1, amount0 = 1, amount1 = 1,
       depositTimestamp = deposited, currentValue = val, pos_riskScore = 30 \<rparr>"

text \<open>
  Two pools on one pair, the second with an APY of exactly 1.1 times the first
  (\<^verbatim>\<open>4 * 1.1 === 4.4\<close> also holds in doubles).
\<close>

definition lowYieldPool :: PoolData where
  "lowYieldPool = \<lparr> protocol = ''Uniswap V3'', pair = ''WETH/USDC'', apy = 4, tvl = 51750000,
                     volume24h = 1659130, fees24h = 8740, riskScore = 25 \<rparr>"

definition boundaryCandidate :: PoolData where
  "boundaryCandidate = \<lparr> protocol = ''Aerodrome'', pair = ''WETH/USDC'', apy = 4.4,
                          tvl = 23400000, volume24h = 892000, fees24h = 4560, riskScore = 35 \<rparr>"



section \<open>Strategy validation\<close>

lemma not_jlt_Num: "x \<noteq> NaN \<Longrightarrow> (\<not> jlt x (Num a)) = jle (Num a) x"
  by (cases x) auto

lemma not_jgt_Num: "x \<noteq> NaN \<Longrightarrow> (\<not> jgt x (Num b)) = jle x (Num b)"
  by (cases x) (auto simp add: jgt_def)

text \<open>
  Every rule contributes its own message, in rule order, and no rule hides another. The
  tests are the source's: a value fails a rule when it is below the lower or above the
  upper bound.
\<close>

lemma validateStrategy_messages:
  "validateStrategy s =
       (if jlt (targetAPY s) (Num 0) \<or> jgt (targetAPY s) (Num 100)
        then [''Target APY must be between 0% and 100%''] else [])
     @ (if jlt (maxImpermanentLoss s) (Num 0) \<or> jgt (maxImpermanentLoss s) (Num 50)
        then [''Max impermanent loss must be between 0% and 50%''] else [])
     @ (if jlt (rebalanceThreshold s) (Num 5) \<or> jgt (rebalanceThreshold s) (Num 50)
        then [''Rebalance threshold must be between 5% and 50%''] else [])"
  by (simp add: validateStrategy_def Let_def)

text \<open>As long as none of the three numbers is NaN, the list is empty exactly when the
  three ranges hold.\<close>

lemma validateStrategy_rules_without_NaN:
  assumes "targetAPY s \<noteq> NaN" and "maxImpermanentLoss s \<noteq> NaN" and "rebalanceThreshold s \<noteq> NaN"
  shows "validateStrategy s = [] \<longleftrightarrow>
      (jle (Num 0) (targetAPY s) \<and> jle (targetAPY s) (Num 100)) \<and>
      (jle (Num 0) (maxImpermanentLoss s) \<and> jle (maxImpermanentLoss s) (Num 50)) \<and>
      (jle (Num 5) (rebalanceThreshold s) \<and> jle (rebalanceThreshold s) (Num 50))"
  using assms
  by (auto simp add: validateStrategy_messages not_jlt_Num [symmetric] not_jgt_Num [symmetric])

lemma validateStrategy_rejects_150:
  "validateStrategy (createCustomStrategy now ''x'' (Num 150) (Num 5) Medium)
     = [''Target APY must be between 0% and 100%'']"
  by (simp add: validateStrategy_messages createCustomStrategy_def jgt_def)

text \<open>
  C5 at a NaN field. The settings page creates its strategy from \<^verbatim>\<open>parseFloat\<close> of the
  text fields; with the target-APY field empty the number is NaN. Both tests of the first
  rule are false on NaN, so no message is pushed and the strategy is reported valid,
  although \<open>0 \<le> targetAPY \<le> 100\<close> does not hold of it.
\<close>

theorem validateStrategy_accepts_NaN:
  "validateStrategy (createCustomStrategy 1700000000000 ''x'' NaN (Num 5) Medium) = []
   \<and> \<not> (jle (Num 0) (targetAPY (createCustomStrategy 1700000000000 ''x'' NaN (Num 5) Medium))
        \<and> jle (targetAPY (createCustomStrategy 1700000000000 ''x'' NaN (Num 5) Medium)) (Num 100))"
  by (simp add: validateStrategy_messages createCustomStrategy_def jgt_def)

section \<open>Decimal rendering is injective\<close>

lemma digit_char_inj: "a < 10 \<Longrightarrow> b < 10 \<Longrightarrow> digit_char a = digit_char b \<Longrightarrow> a = b"
  unfolding digit_char_def by (subst (asm) nth_eq_iff_index_eq) simp_all

lemma digit_char_not_minus: "d < 10 \<Longrightarrow> digit_char d \<noteq> CHR ''-''"
proof -
  assume "d < 10"
  then have "digit_char d \<in> set ''0123456789''"
    unfolding digit_char_def by (intro nth_mem) simp
  then show ?thesis by auto
qed

lemma show_nat_nonempty: "show_nat n \<noteq> []" "[] \<noteq> show_nat n"
  by (subst show_nat.simps, simp)+

lemma show_nat_hd_not_minus: "hd (show_nat n) \<noteq> CHR ''-''"
proof (induction n rule: show_nat.induct)
  case (1 n)
  show ?case
  proof (cases "n < 10")
    case True
    then show ?thesis by (subst show_nat.simps) (simp add: digit_char_not_minus)
  next
    case False
    with 1 show ?thesis
      by (subst show_nat.simps) (simp add: show_nat_nonempty)
  qed
qed

lemma show_nat_inj: "show_nat m = show_nat n \<Longrightarrow> m = n"
proof (induction m arbitrary: n rule: show_nat.induct)
  case (1 m)
  show ?case
  proof (cases "m < 10")
    case m: True
    show ?thesis
    proof (cases "n < 10")
      case True
      with m "1.prems" show ?thesis
        by (simp add: show_nat.simps [of m] show_nat.simps [of n] digit_char_inj)
    next
      case False
      with m "1.prems" show ?thesis
        by (simp add: show_nat.simps [of m] show_nat.simps [of n] show_nat_nonempty)
    qed
  next
    case m: False
    show ?thesis
    proof (cases "n < 10")
      case True
      with m "1.prems" show ?thesis
        by (simp add: show_nat.simps [of m] show_nat.simps [of n] show_nat_nonempty)
    next
      case False
      with m "1.prems" have "show_nat (m div 10) = show_nat (n div 10)"
        and "digit_char (m mod 10) = digit_char (n mod 10)"
        by (simp_all add: show_nat.simps [of m] show_nat.simps [of n])
      with "1.IH" [OF m] have "m div 10 = n div 10" and "m mod 10 = n mod 10"
        by (simp_all add: digit_char_inj)
      then show ?thesis by (metis div_mult_mod_eq)
    qed
  qed
qed

lemma show_int_inj: "show_int i = show_int j \<Longrightarrow> i = j"
proof -
  assume e: "show_int i = show_int j"
  have ne: "CHR ''-'' # xs \<noteq> show_nat n" for xs n
    using show_nat_hd_not_minus [of n] by (metis list.sel(1))
  show "i = j"
  proof (cases "i < 0")
    case i: True
    show ?thesis
    proof (cases "j < 0")
      case True
      with i e have "nat (- i) = nat (- j)" by (simp add: show_int_def show_nat_inj)
      with i True show ?thesis by simp
    next
      case False
      with i e ne show ?thesis by (simp add: show_int_def)
    qed
  next
    case i: False
    show ?thesis
    proof (cases "j < 0")
      case True
      with i e ne [of "show_nat (nat (- j))" "nat i"] show ?thesis by (simp add: show_int_def)
    next
      case False
      with i e have "nat i = nat j" by (simp add: show_int_def show_nat_inj)
      with i False show ?thesis by simp
    qed
  qed
qed

section \<open>Strategy creation\<close>

text \<open>
  C6, as the claim states it, fails: the id is read from the clock, so the same inputs at
  two instants receive two ids, and two different strategies created at one instant
  receive one id.
\<close>

theorem createCustomStrategy_id_counterexample:
  "sid (createCustomStrategy 1700000000000 ''a'' (Num 8) (Num 5) Medium)
     \<noteq> sid (createCustomStrategy 1700000000001 ''a'' (Num 8) (Num 5) Medium)
   \<and> createCustomStrategy 1700000000000 ''a'' (Num 8) (Num 5) Medium
     \<noteq> createCustomStrategy 1700000000000 ''b'' (Num 9) (Num 6) High
   \<and> sid (createCustomStrategy 1700000000000 ''a'' (Num 8) (Num 5) Medium)
     = sid (createCustomStrategy 1700000000000 ''b'' (Num 9) (Num 6) High)"
  by (simp add: createCustomStrategy_def show_int_def show_nat.simps digit_char_def)

text \<open>
  C6, amended. The threshold of a created strategy is 10, 15 or 20 for a low, medium or
  high tolerance; its id is \<open>custom-\<close> followed by the creation time in milliseconds, so
  two created strategies have the same id exactly when they were created at the same
  millisecond, whatever their other inputs.
\<close>

theorem createCustomStrategy_threshold_and_id:
  "rebalanceThreshold (createCustomStrategy now nm tAPY maxIL tol)
     = (case tol of Low \<Rightarrow> Num 10 | Medium \<Rightarrow> Num 15 | High \<Rightarrow> Num 20)
   \<and> sid (createCustomStrategy now nm tAPY maxIL tol) = ''custom-'' @ show_int now
   \<and> (sid (createCustomStrategy now nm tAPY maxIL tol)
        = sid (createCustomStrategy now' nm' tAPY' maxIL' tol') \<longleftrightarrow> now = now')"
  using show_int_inj [of now now']
  by (cases tol) (auto simp add: createCustomStrategy_def)

theorem createCustomStrategy_threshold_and_id_witness:
  "rebalanceThreshold (createCustomStrategy 1700000000000 ''My Strategy'' (Num 12) (Num 7) Medium) = Num 15
   \<and> sid (createCustomStrategy 1700000000000 ''My Strategy'' (Num 12) (Num 7) Medium)
       = ''custom-1700000000000''
   \<and> sid (createCustomStrategy 1700000000000 ''My Strategy'' (Num 12) (Num 7) Medium)
       \<noteq> sid (createCustomStrategy 1700000000001 ''My Strategy'' (Num 12) (Num 7) Medium)"
  using createCustomStrategy_threshold_and_id
          [of 1700000000000 "''My Strategy''" "Num 12" "Num 7" Medium
              1700000000001 "''My Strategy''" "Num 12" "Num 7" Medium]
  by (simp add: createCustomStrategy_def show_int_def show_nat.simps digit_char_def)

section \<open>The policy of evaluatePosition\<close>

lemma evaluatePosition_exit:
  "jgt (Num impermanentLoss) (maxImpermanentLoss strategy * Num 2) \<Longrightarrow>
   action (evaluatePosition strategy pools position currentPool currentAPY impermanentLoss rs) = Exit \<and>
   urgency (evaluatePosition strategy pools position currentPool currentAPY impermanentLoss rs) = High"
  by (simp add: evaluatePosition_def)

text \<open>
  C1. Whatever the pool's APY and risk score, an impermanent loss above twice the
  strategy's maximum makes \<open>evaluatePosition\<close> answer exit with high urgency; so a
  position that has a matching pool and whose estimated loss is that large receives that
  recommendation from \<open>analyzePosition\<close>.
\<close>

theorem exit_rule_first:
  "(jgt (Num impermanentLoss) (maxImpermanentLoss strategy * Num 2) \<longrightarrow>
      action (evaluatePosition strategy pools position currentPool currentAPY impermanentLoss rs) = Exit \<and>
      urgency (evaluatePosition strategy pools position currentPool currentAPY impermanentLoss rs) = High)
   \<and> (find (matchesPosition position) pools = Some pool \<and>
       jgt (Num (estimateImpermanentLoss now position)) (maxImpermanentLoss strategy * Num 2)
       \<longrightarrow>
       (\<exists>r. analyzePosition strategy now pools position = Some r \<and>
            action r = Exit \<and> urgency r = High))"
  by (simp add: analyzePosition_def evaluatePosition_exit Let_def)

text \<open>The spec's example: a loss of 11 against a maximum of 5 (110 days after deposit).\<close>

theorem exit_rule_first_witness:
  "find (matchesPosition (mkPosition ''1'' ''WETH'' ''USDC'' 1690496000000 3600)) mockPools
     = Some (mockPools ! 0)
   \<and> estimateImpermanentLoss 1700000000000 (mkPosition ''1'' ''WETH'' ''USDC'' 1690496000000 3600) = 11
   \<and> jgt (Num 11) (maxImpermanentLoss (DEFAULT_STRATEGIES ! 1) * Num 2)
   \<and> (\<exists>r. analyzePosition (DEFAULT_STRATEGIES ! 1) 1700000000000 mockPools
             (mkPosition ''1'' ''WETH'' ''USDC'' 1690496000000 3600) = Some r
          \<and> action r = Exit \<and> urgency r = High)"
  using exit_rule_first [where strategy = "DEFAULT_STRATEGIES ! 1" and now = 1700000000000
      and pools = mockPools and pool = "mockPools ! 0" and impermanentLoss = 11
      and position = "mkPosition ''1'' ''WETH'' ''USDC'' 1690496000000 3600"]
  by (simp add: mockPools_def mkPosition_def matchesPosition_def DEFAULT_STRATEGIES_def
        estimateImpermanentLoss_def jgt_def)

lemma pickBest_from_Some:
  "\<exists>c. foldl (\<lambda>best current. case best of None \<Rightarrow> Some current
        | Some b \<Rightarrow> if sc current > sc b then Some current else Some b) (Some b0) xs = Some c
       \<and> (c = b0 \<or> c \<in> set xs)"
proof (induction xs arbitrary: b0)
  case Nil
  show ?case by simp
next
  case (Cons x xs)
  show ?case
  proof (cases "sc x > sc b0")
    case True
    with Cons [of x] show ?thesis by auto
  next
    case False
    with Cons [of b0] show ?thesis by auto
  qed
qed

lemma pickBest_nonempty: "xs \<noteq> [] \<Longrightarrow> \<exists>c. pickBest sc xs = Some c \<and> c \<in> set xs"
proof (cases xs)
  case Nil
  assume "xs \<noteq> []"
  with Nil show ?thesis by simp
next
  case (Cons x ys)
  with pickBest_from_Some [of sc x ys] show ?thesis by (auto simp add: pickBest_def)
qed

lemma str_includes_prefix: "str_includes (sub @ ys) sub"
proof (cases "sub @ ys")
  case Nil
  then show ?thesis by simp
next
  case (Cons a list)
  have "take (length sub) (sub @ ys) = sub" by simp
  with Cons show ?thesis by simp
qed

lemma str_includes_append: "str_includes (xs @ sub @ ys) sub"
  by (induction xs) (simp_all add: str_includes_prefix)

lemma matches_sameTokens: "matchesPosition position pool \<Longrightarrow> sameTokens position pool"
proof -
  assume "matchesPosition position pool"
  then consider "pair pool = token0 position @ ''/'' @ token1 position"
    | "pair pool = token1 position @ ''/'' @ token0 position"
    by (auto simp add: matchesPosition_def)
  then show ?thesis
  proof cases
    case 1
    have "str_includes ([] @ token0 position @ (''/'' @ token1 position)) (token0 position)"
      by (rule str_includes_append)
    moreover have "str_includes ((token0 position @ ''/'') @ token1 position @ []) (token1 position)"
      by (rule str_includes_append)
    ultimately show ?thesis using 1 by (simp add: sameTokens_def)
  next
    case 2
    have "str_includes ([] @ token1 position @ (''/'' @ token0 position)) (token1 position)"
      by (rule str_includes_append)
    moreover have "str_includes ((token1 position @ ''/'') @ token0 position @ []) (token0 position)"
      by (rule str_includes_append)
    ultimately show ?thesis using 2 by (simp add: sameTokens_def)
  qed
qed

text \<open>
  Away from the boundary the second rule is as described: with no exit, an APY below
  0.7 of the target, and some pool of the position's pair whose APY is strictly above
  1.1 times the current one at an acceptable risk, the answer is rebalance towards the
  pool \<open>findBetterPool\<close> selects, with high urgency exactly when the projected gain for
  that pool exceeds the threshold.
\<close>

lemma rebalance_rule_strict:
  assumes "\<not> jgt (Num impermanentLoss) (maxImpermanentLoss strategy * Num 2)"
    and "jlt (Num currentAPY) (targetAPY strategy * Num 0.7)"
    and "c \<in> set pools"
    and "matchesPosition position c"
    and "apy c > apy currentPool * 1.1"
    and "isRiskAcceptable (riskScore c) (riskTolerance strategy)"
  shows "\<exists>b. findBetterPool strategy pools position currentPool = Some b
           \<and> action (evaluatePosition strategy pools position currentPool currentAPY impermanentLoss rs)
               = Rebalance
           \<and> newPool (evaluatePosition strategy pools position currentPool currentAPY impermanentLoss rs)
               = Some b
           \<and> urgency (evaluatePosition strategy pools position currentPool currentAPY impermanentLoss rs)
               = (if jgt (Num (calculatePotentialGain position currentPool b))
                         (rebalanceThreshold strategy)
                  then High else Medium)"
proof -
  let ?cands = "filter (\<lambda>pool. sameTokens position pool \<and> apy pool > apy currentPool * 1.1
                        \<and> isRiskAcceptable (riskScore pool) (riskTolerance strategy)) pools"
  from assms(3-6) have "c \<in> set ?cands" by (simp add: matches_sameTokens)
  then have "?cands \<noteq> []" by (metis empty_iff empty_set)
  then obtain b where "pickBest (\<lambda>p. apy p - riskScore p * 0.1) ?cands = Some b"
    using pickBest_nonempty by blast
  then have b: "findBetterPool strategy pools position currentPool = Some b"
    by (simp add: findBetterPool_def Let_def)
  with assms(1,2) show ?thesis
    by (simp add: evaluatePosition_def Let_def)
qed

text \<open>
  C2 at its boundary. The balanced strategy targets 8, so a pool at 4 underperforms
  (4 < 5.6); a second pool on the same pair yields 4.4, which is 1.10 times 4, at an
  acceptable risk. Every condition of the claim holds, yet \<open>findBetterPool\<close> compares
  with a strict \<open>>\<close>, finds nothing, and the recommendation is hold with low urgency.
\<close>

theorem rebalance_boundary_falls_through:
  "find (matchesPosition (mkPosition ''1'' ''WETH'' ''USDC'' 1700000000000 1000))
        [lowYieldPool, boundaryCandidate] = Some lowYieldPool
   \<and> jle (Num (estimateImpermanentLoss 1700000000000
                   (mkPosition ''1'' ''WETH'' ''USDC'' 1700000000000 1000)))
           (maxImpermanentLoss (DEFAULT_STRATEGIES ! 1) * Num 2)
   \<and> jlt (Num (apy lowYieldPool)) (targetAPY (DEFAULT_STRATEGIES ! 1) * Num 0.7)
   \<and> matchesPosition (mkPosition ''1'' ''WETH'' ''USDC'' 1700000000000 1000) boundaryCandidate
   \<and> apy boundaryCandidate \<ge> 1.10 * apy lowYieldPool
   \<and> isRiskAcceptable (riskScore boundaryCandidate) (riskTolerance (DEFAULT_STRATEGIES ! 1))
   \<and> findBetterPool (DEFAULT_STRATEGIES ! 1) [lowYieldPool, boundaryCandidate]
        (mkPosition ''1'' ''WETH'' ''USDC'' 1700000000000 1000) lowYieldPool = None
   \<and> map_option action
        (analyzePosition (DEFAULT_STRATEGIES ! 1) 1700000000000 [lowYieldPool, boundaryCandidate]
           (mkPosition ''1'' ''WETH'' ''USDC'' 1700000000000 1000)) = Some Hold
   \<and> map_option urgency
        (analyzePosition (DEFAULT_STRATEGIES ! 1) 1700000000000 [lowYieldPool, boundaryCandidate]
           (mkPosition ''1'' ''WETH'' ''USDC'' 1700000000000 1000)) = Some Low"
  by (simp add: lowYieldPool_def boundaryCandidate_def mkPosition_def matchesPosition_def
        DEFAULT_STRATEGIES_def estimateImpermanentLoss_def isRiskAcceptable_def
        findBetterPool_def sameTokens_def pickBest_def analyzePosition_def
        evaluatePosition_def findSaferPool_def jgt_def)

section \<open>The loop of analyzePositions\<close>

lemma analyzeStep_None:
  "analyzePosition strategy now pools p = None \<Longrightarrow> analyzeStep strategy now pools st p = st"
  by (cases st) (simp add: analyzeStep_def)

lemma analyzeStep_Some:
  "analyzePosition strategy now pools p = Some r \<Longrightarrow>
   analyzeStep strategy now pools (recs, a, u, g) p =
     (recs @ [r], a + length (filter (\<lambda>r. urgency r = High) [r]),
      u + length (filter (\<lambda>r. action r = Rebalance \<or> action r = Exit) [r]),
      g + (case expectedGain r of None \<Rightarrow> 0 | Some g \<Rightarrow> g))"
  by (simp add: analyzeStep_def split: option.splits)

lemma analyze_loop:
  "foldl (analyzeStep strategy now pools) (recs, a, u, g) ps =
     (recs @ List.map_filter (analyzePosition strategy now pools) ps,
      a + length (filter (\<lambda>r. urgency r = High)
                   (List.map_filter (analyzePosition strategy now pools) ps)),
      u + length (filter (\<lambda>r. action r = Rebalance \<or> action r = Exit)
                   (List.map_filter (analyzePosition strategy now pools) ps)),
      g + sum_list (map (\<lambda>r. case expectedGain r of None \<Rightarrow> 0 | Some g \<Rightarrow> g)
                   (List.map_filter (analyzePosition strategy now pools) ps)))"
proof (induction ps arbitrary: recs a u g)
  case Nil
  show ?case by simp
next
  case (Cons p ps)
  show ?case
  proof (cases "analyzePosition strategy now pools p")
    case None
    then show ?thesis
      by (simp add: analyzeStep_None Cons.IH)
  next
    case (Some r)
    then show ?thesis
      by (simp add: analyzeStep_Some Cons.IH add.assoc)
  qed
qed

lemma analyzePosition_None_iff:
  "analyzePosition strategy now pools p = None \<longleftrightarrow> find (matchesPosition p) pools = None"
  by (simp add: analyzePosition_def Let_def split: option.splits)

lemma map_filter_drop_None:
  "List.map_filter f (filter (\<lambda>x. f x \<noteq> None) xs) = List.map_filter f xs"
  by (induction xs) (auto split: option.splits)

text \<open>
  C4. A position without a matching pool gets no recommendation (the model has no
  error branch: nothing in \<open>analyzePosition\<close> can throw). The recommendations are those
  of the positions that have one, in input order; the three aggregates are functions of
  that list alone; and dropping the unmatched positions from the input changes nothing
  in the analysis but \<open>totalPositions\<close>.
\<close>

theorem unmatched_positions_excluded:
  "(find (matchesPosition p) pools = None \<longrightarrow> analyzePosition strategy now pools p = None)
   \<and> recommendations (analyzePositions strategy now positions pools)
       = List.map_filter (analyzePosition strategy now pools) positions
   \<and> positionsAtRisk (analyzePositions strategy now positions pools)
       = length (filter (\<lambda>r. urgency r = High)
                  (recommendations (analyzePositions strategy now positions pools)))
   \<and> underperformingPositions (analyzePositions strategy now positions pools)
       = length (filter (\<lambda>r. action r = Rebalance \<or> action r = Exit)
                  (recommendations (analyzePositions strategy now positions pools)))
   \<and> totalPotentialGain (analyzePositions strategy now positions pools)
       = sum_list (map (\<lambda>r. case expectedGain r of None \<Rightarrow> 0 | Some g \<Rightarrow> g)
                  (recommendations (analyzePositions strategy now positions pools)))
   \<and> analyzePositions strategy now
        (filter (\<lambda>q. find (matchesPosition q) pools \<noteq> None) positions) pools
       = (analyzePositions strategy now positions pools)
           \<lparr> totalPositions :=
               length (filter (\<lambda>q. find (matchesPosition q) pools \<noteq> None) positions) \<rparr>"
proof -
  have "(\<lambda>q. find (matchesPosition q) pools \<noteq> None)
            = (\<lambda>q. analyzePosition strategy now pools q \<noteq> None)"
    by (simp add: analyzePosition_None_iff)
  then have mf: "List.map_filter (analyzePosition strategy now pools)
                (filter (\<lambda>q. find (matchesPosition q) pools \<noteq> None) positions)
             = List.map_filter (analyzePosition strategy now pools) positions"
    by (simp only: map_filter_drop_None)
  have unmatched: "find (matchesPosition p) pools = None \<longrightarrow>
                   analyzePosition strategy now pools p = None"
    by (simp add: analyzePosition_None_iff)
  show ?thesis
    using unmatched by (simp add: analyzePositions_def analyze_loop mf del: not_None_eq)
qed

text \<open>
  One matched position past the exit threshold and one on a pair no pool lists: a single
  recommendation, one position at risk, one underperforming, no gain.
\<close>

theorem unmatched_positions_excluded_witness:
  "find (matchesPosition (mkPosition ''2'' ''DAI'' ''WBTC'' 1690496000000 500)) mockPools = None
   \<and> analyzePosition (DEFAULT_STRATEGIES ! 1) 1700000000000 mockPools
        (mkPosition ''2'' ''DAI'' ''WBTC'' 1690496000000 500) = None
   \<and> map rec_positionId (recommendations (analyzePositions (DEFAULT_STRATEGIES ! 1) 1700000000000
        [mkPosition ''2'' ''DAI'' ''WBTC'' 1690496000000 500,
         mkPosition ''1'' ''WETH'' ''USDC'' 1690496000000 3600] mockPools)) = [''1'']
   \<and> positionsAtRisk (analyzePositions (DEFAULT_STRATEGIES ! 1) 1700000000000
        [mkPosition ''2'' ''DAI'' ''WBTC'' 1690496000000 500,
         mkPosition ''1'' ''WETH'' ''USDC'' 1690496000000 3600] mockPools) = 1
   \<and> totalPositions (analyzePositions (DEFAULT_STRATEGIES ! 1) 1700000000000
        [mkPosition ''2'' ''DAI'' ''WBTC'' 1690496000000 500,
         mkPosition ''1'' ''WETH'' ''USDC'' 1690496000000 3600] mockPools) = 2"
  using unmatched_positions_excluded [where strategy = "DEFAULT_STRATEGIES ! 1"
      and now = 1700000000000 and pools = mockPools
      and p = "mkPosition ''2'' ''DAI'' ''WBTC'' 1690496000000 500"
      and positions = "[mkPosition ''2'' ''DAI'' ''WBTC'' 1690496000000 500,
                        mkPosition ''1'' ''WETH'' ''USDC'' 1690496000000 3600]"]
  by (simp add: mockPools_def mkPosition_def matchesPosition_def DEFAULT_STRATEGIES_def
        estimateImpermanentLoss_def analyzePositions_def analyzeStep_def analyzePosition_def
        evaluatePosition_def estimateTransactionCost_def jgt_def)

section \<open>Properties of the rounding\<close>

subsection \<open>Rounding a real to an integer, ties to even\<close>

lemma round_even_cases: "round_even y = \<lfloor>y\<rfloor> \<or> round_even y = \<lfloor>y\<rfloor> + 1"
  by (simp add: round_even_def Let_def)

lemma round_even_of_int [simp]: "round_even (of_int n) = n"
  by (simp add: round_even_def Let_def)

lemma round_even_unfold:
  "round_even y = (if y - of_int \<lfloor>y\<rfloor> < 1 / 2 then \<lfloor>y\<rfloor>
                   else if y - of_int \<lfloor>y\<rfloor> > 1 / 2 then \<lfloor>y\<rfloor> + 1
                   else if even \<lfloor>y\<rfloor> then \<lfloor>y\<rfloor> else \<lfloor>y\<rfloor> + 1)"
  by (simp add: round_even_def Let_def)

lemma round_even_lower: "of_int (round_even y) \<ge> y - 1 / 2"
proof -
  define f where "f = \<lfloor>y\<rfloor>"
  have f: "of_int f \<le> y" "y < of_int f + 1" unfolding f_def by linarith+
  show ?thesis
    unfolding round_even_unfold f_def [symmetric] using f by (auto split: if_splits)
qed

lemma round_even_upper: "of_int (round_even y) \<le> y + 1 / 2"
proof -
  define f where "f = \<lfloor>y\<rfloor>"
  have f: "of_int f \<le> y" "y < of_int f + 1" unfolding f_def by linarith+
  show ?thesis
    unfolding round_even_unfold f_def [symmetric] using f by (auto split: if_splits)
qed

lemma round_even_near:
  assumes "\<bar>y - of_int m\<bar> < 1 / 2"
  shows "round_even y = m"
proof -
  have "\<bar>of_int (round_even y) - (of_int m :: real)\<bar> < 1"
    using assms round_even_lower [of y] round_even_upper [of y] by linarith
  then have "\<bar>round_even y - m\<bar> < 1"
    by (metis of_int_diff of_int_abs of_int_less_1_iff)
  then show ?thesis by linarith
qed

lemma round_even_mono:
  assumes "x \<le> y"
  shows "round_even x \<le> round_even y"
proof (cases "\<lfloor>x\<rfloor> = \<lfloor>y\<rfloor>")
  case True
  with assms have "x - of_int \<lfloor>x\<rfloor> \<le> y - of_int \<lfloor>x\<rfloor>" by simp
  with True show ?thesis by (auto simp add: round_even_def Let_def)
next
  case False
  with assms have "\<lfloor>x\<rfloor> < \<lfloor>y\<rfloor>" by (simp add: floor_mono order.strict_iff_order)
  moreover have "round_even x \<le> \<lfloor>x\<rfloor> + 1" using round_even_cases [of x] by linarith
  moreover have "\<lfloor>y\<rfloor> \<le> round_even y" using round_even_cases [of y] by linarith
  ultimately show ?thesis by linarith
qed

lemma round_even_minus: "round_even (- y) = - round_even y"
proof (cases "y \<in> \<int>")
  case True
  then obtain n where "y = of_int n" by (auto elim: Ints_cases)
  then show ?thesis by (metis of_int_minus round_even_of_int)
next
  case False
  define f where "f = \<lfloor>y\<rfloor>"
  have fy: "of_int f \<noteq> y" using False by (metis Ints_of_int)
  have f: "of_int f < y" "y < of_int f + 1"
    using fy unfolding f_def by linarith+
  have fl: "\<lfloor>- y\<rfloor> = - f - 1"
    using f by (intro floor_unique) simp_all
  show ?thesis
    unfolding round_even_unfold fl f_def [symmetric] using f by (auto split: if_splits)
qed

subsection \<open>Powers of two\<close>

lemma p2_pos [simp]: "0 < (2::real) powr of_int k"
  by simp

lemma p2_add: "(2::real) powr of_int (a + b) = 2 powr of_int a * 2 powr of_int b"
  by (simp add: powr_add)

lemma p2_mono: "a \<le> b \<Longrightarrow> (2::real) powr of_int a \<le> 2 powr of_int b"
  by simp

lemma p2_strict_mono: "a < b \<Longrightarrow> (2::real) powr of_int a < 2 powr of_int b"
  by simp

lemma p2_quot: "(2::real) powr of_int a / 2 powr of_int b = 2 powr of_int (a - b)"
  by (simp add: powr_diff)

lemma p2_nat: "0 \<le> k \<Longrightarrow> (2::real) powr of_int k = of_int (2 ^ nat k)"
  by (simp add: powr_int)

lemma floor_log2_eq:
  assumes "2 powr of_int k \<le> \<bar>x\<bar>" and "\<bar>x\<bar> < 2 powr of_int (k + 1)"
  shows "\<lfloor>log 2 \<bar>x\<bar>\<rfloor> = k"
proof -
  have "0 < \<bar>x\<bar>" using assms(1) p2_pos [of k] by linarith
  then show ?thesis using assms by (simp add: floor_log_eq_powr_iff)
qed

lemma floor_log2_bounds:
  assumes "x \<noteq> 0"
  shows "2 powr of_int \<lfloor>log 2 \<bar>x\<bar>\<rfloor> \<le> \<bar>x\<bar>" and "\<bar>x\<bar> < 2 powr of_int (\<lfloor>log 2 \<bar>x\<bar>\<rfloor> + 1)"
proof -
  from assms have "0 < \<bar>x\<bar>" by simp
  then have "\<lfloor>log 2 \<bar>x\<bar>\<rfloor> = \<lfloor>log 2 \<bar>x\<bar>\<rfloor> \<longleftrightarrow>
      2 powr of_int \<lfloor>log 2 \<bar>x\<bar>\<rfloor> \<le> \<bar>x\<bar> \<and> \<bar>x\<bar> < 2 powr of_int (\<lfloor>log 2 \<bar>x\<bar>\<rfloor> + 1)"
    by (intro floor_log_eq_powr_iff) simp_all
  then show "2 powr of_int \<lfloor>log 2 \<bar>x\<bar>\<rfloor> \<le> \<bar>x\<bar>"
    and "\<bar>x\<bar> < 2 powr of_int (\<lfloor>log 2 \<bar>x\<bar>\<rfloor> + 1)" by simp_all
qed

subsection \<open>Rounding to the nearest double\<close>

lemma overflow_threshold_pos: "0 < overflow_threshold"
  by (simp add: overflow_threshold_def)

lemma rnd_zero [simp]: "rnd 0 = Num 0"
  by (simp add: rnd_def)

lemma rnd_overflow: "overflow_threshold \<le> x \<Longrightarrow> rnd x = PosInf"
  using overflow_threshold_pos by (simp add: rnd_def)

lemma rnd_finite:
  assumes "x \<noteq> 0" and "\<bar>x\<bar> < overflow_threshold"
  shows "rnd x = Num (of_int (round_even (x / 2 powr of_int (ulp_exponent x)))
                       * 2 powr of_int (ulp_exponent x))"
  using assms by (simp add: rnd_def Let_def)

lemma ulp_exponent_minus [simp]: "ulp_exponent (- x) = ulp_exponent x"
  by (simp add: ulp_exponent_def)

lemma rnd_minus: "rnd (- x) = jneg (rnd x)"
proof (cases "x = 0")
  case True
  then show ?thesis by simp
next
  case False
  show ?thesis
  proof (cases "\<bar>x\<bar> \<ge> overflow_threshold")
    case True
    with False show ?thesis by (simp add: rnd_def)
  next
    case ov: False
    with False show ?thesis
      by (simp add: rnd_def Let_def round_even_minus)
  qed
qed

lemma rnd_normal:
  assumes e: "- 1074 \<le> e"
    and lo: "2 powr of_int (e + 52) \<le> \<bar>x\<bar>"
    and hi: "\<bar>x\<bar> < 2 powr of_int (e + 53)"
    and ov: "\<bar>x\<bar> < overflow_threshold"
    and near: "\<bar>x / 2 powr of_int e - of_int m\<bar> < 1 / 2"
  shows "rnd x = Num (of_int m * 2 powr of_int e)"
proof -
  have "0 < \<bar>x\<bar>" using lo p2_pos [of "e + 52"] by linarith
  then have nz: "x \<noteq> 0" by simp
  have "\<lfloor>log 2 \<bar>x\<bar>\<rfloor> = e + 52"
    using lo hi by (intro floor_log2_eq) (simp_all add: add.commute add.left_commute)
  then have "ulp_exponent x = e" using e by (simp add: ulp_exponent_def)
  with rnd_finite [OF nz ov] round_even_near [OF near] show ?thesis by simp
qed

lemma p2_52: "(2::real) powr of_int (e + 52) = of_int (2 ^ 52) * 2 powr of_int e"
  by (simp add: powr_add)

lemma p2_53: "(2::real) powr of_int (e + 53) = of_int (2 ^ 53) * 2 powr of_int e"
  by (simp add: powr_add)

lemma round_even_scaled_lower:
  assumes "0 < q" and "of_int N * q \<le> x"
  shows "of_int N * q \<le> of_int (round_even (x / q)) * q"
proof -
  from assms have "of_int N \<le> x / q" by (simp add: pos_le_divide_eq)
  then have "round_even (of_int N) \<le> round_even (x / q)" by (rule round_even_mono)
  then have "(of_int N :: real) \<le> of_int (round_even (x / q))" by simp
  with assms(1) show ?thesis by simp
qed

lemma round_even_scaled_upper:
  assumes "0 < q" and "x \<le> of_int N * q"
  shows "of_int (round_even (x / q)) * q \<le> of_int N * q"
proof -
  from assms have "x / q \<le> of_int N" by (simp add: pos_divide_le_eq)
  then have "round_even (x / q) \<le> round_even (of_int N)" by (rule round_even_mono)
  then have "(of_int (round_even (x / q)) :: real) \<le> of_int N" by simp
  with assms(1) show ?thesis by simp
qed

text \<open>A positive number below the overflow threshold rounds within its binade; below
  the smallest normal number it rounds within the subnormal range.\<close>

lemma rnd_pos_normal:
  assumes x: "0 < x" "x < overflow_threshold"
    and k: "\<lfloor>log 2 x\<rfloor> = k" "- 1022 \<le> k"
  shows "\<exists>y. rnd x = Num y \<and> 2 powr of_int k \<le> y \<and> y \<le> 2 powr of_int (k + 1)
             \<and> y = of_int (round_even (x / 2 powr of_int (k - 52))) * 2 powr of_int (k - 52)"
proof -
  define e where "e = k - 52"
  define q :: real where "q = 2 powr of_int e"
  have ax: "\<bar>x\<bar> = x" using x(1) by simp
  have nz: "x \<noteq> 0" using x(1) by simp
  have q: "0 < q" by (simp add: q_def)
  have ke: "k = e + 52" "k + 1 = e + 53" by (simp_all add: e_def)
  have b1: "2 powr of_int (e + 52) \<le> x"
    using floor_log2_bounds(1) [OF nz] unfolding ax k(1) ke(1) .
  have b2: "x < 2 powr of_int (e + 53)"
    using floor_log2_bounds(2) [OF nz] unfolding ax k(1) ke(2) .
  from b1 have kb1: "of_int (2 ^ 52) * q \<le> x" by (simp only: p2_52 q_def)
  from b2 have "x < of_int (2 ^ 53) * q" by (simp only: p2_53 q_def)
  then have kb2: "x \<le> of_int (2 ^ 53) * q" by (rule less_imp_le)
  have "ulp_exponent x = e" using k by (simp add: ulp_exponent_def ax e_def)
  then have r: "rnd x = Num (of_int (round_even (x / q)) * q)"
    using rnd_finite [OF nz] x(2) by (simp add: ax q_def)
  have "of_int (2 ^ 52) * q \<le> of_int (round_even (x / q)) * q"
    using q kb1 by (rule round_even_scaled_lower)
  moreover have "of_int (round_even (x / q)) * q \<le> of_int (2 ^ 53) * q"
    using q kb2 by (rule round_even_scaled_upper)
  ultimately have c: "2 powr of_int (e + 52) \<le> of_int (round_even (x / q)) * q"
    "of_int (round_even (x / q)) * q \<le> 2 powr of_int (e + 53)"
    by (simp_all only: p2_52 p2_53 q_def)
  from c(1) have "2 powr of_int k \<le> of_int (round_even (x / q)) * q"
    by (simp only: ke(1))
  moreover from c(2) have "of_int (round_even (x / q)) * q \<le> 2 powr of_int (k + 1)"
    by (simp only: ke(2))
  ultimately show ?thesis using r unfolding q_def e_def by blast
qed

lemma rnd_pos_subnormal:
  assumes x: "0 < x"
    and k: "\<lfloor>log 2 x\<rfloor> < - 1022"
  shows "\<exists>y. rnd x = Num y \<and> 0 \<le> y \<and> y \<le> 2 powr of_int (- 1022)
             \<and> y = of_int (round_even (x / 2 powr of_int (- 1074))) * 2 powr of_int (- 1074)"
proof -
  define q :: real where "q = 2 powr of_int (- 1074)"
  have ax: "\<bar>x\<bar> = x" using x(1) by simp
  have nz: "x \<noteq> 0" using x(1) by simp
  have q: "0 < q" by (simp add: q_def)
  have "x < 2 powr of_int (\<lfloor>log 2 x\<rfloor> + 1)"
    using floor_log2_bounds [OF nz] by (simp add: ax)
  moreover have "(2::real) powr of_int (\<lfloor>log 2 x\<rfloor> + 1) \<le> 2 powr of_int (- 1022)"
    using k by (intro p2_mono) linarith
  ultimately have small: "x < 2 powr of_int (- 1022)" by linarith
  have m: "(2::real) powr of_int (- 1022) = of_int (2 ^ 52) * q"
    using p2_52 [of "- 1074"] by (simp add: q_def)
  have "(2::real) powr of_int (- 1022) < overflow_threshold"
    by (simp add: overflow_threshold_def powr_neg_numeral)
  with small have ov: "\<bar>x\<bar> < overflow_threshold" by (simp add: ax)
  have "max (\<lfloor>log 2 x\<rfloor> - 52) (- 1074) = - 1074" using k by linarith
  then have "ulp_exponent x = - 1074" by (simp only: ulp_exponent_def ax)
  then have r: "rnd x = Num (of_int (round_even (x / q)) * q)"
    using rnd_finite [OF nz ov] by (simp add: q_def)
  have "of_int 0 * q \<le> x" using x(1) by simp
  with q have "of_int 0 * q \<le> of_int (round_even (x / q)) * q"
    by (rule round_even_scaled_lower)
  then have lo: "0 \<le> of_int (round_even (x / q)) * q" by simp
  have "x \<le> of_int (2 ^ 52) * q" using small m by simp
  with q have "of_int (round_even (x / q)) * q \<le> of_int (2 ^ 52) * q"
    by (rule round_even_scaled_upper)
  then have hi: "of_int (round_even (x / q)) * q \<le> 2 powr of_int (- 1022)"
    using m by simp
  from r lo hi show ?thesis by (simp add: q_def)
qed

lemma jle_trans: "jle a b \<Longrightarrow> jle b c \<Longrightarrow> jle a c"
  by (cases a; cases b; cases c) auto

lemma jle_jneg: "jle (jneg a) (jneg b) = jle b a"
  by (cases a; cases b) auto

lemma jle_PosInf: "a \<noteq> NaN \<Longrightarrow> jle a PosInf"
  by (cases a) auto

lemma floor_log2_mono:
  assumes "0 < x" and "x \<le> y"
  shows "\<lfloor>log 2 x\<rfloor> \<le> \<lfloor>log 2 y\<rfloor>"
proof -
  from assms have "log 2 x \<le> log 2 y" by simp
  then show ?thesis by (rule floor_mono)
qed

lemma rnd_pos_cases:
  assumes "0 < x"
  shows "rnd x = PosInf \<or> (\<exists>y. rnd x = Num y \<and> 0 \<le> y)"
proof (cases "x < overflow_threshold")
  case False
  then show ?thesis by (simp add: rnd_overflow)
next
  case True
  show ?thesis
  proof (cases "- 1022 \<le> \<lfloor>log 2 x\<rfloor>")
    case n: True
    from rnd_pos_normal [OF assms True refl n]
    obtain y where "rnd x = Num y" "2 powr of_int \<lfloor>log 2 x\<rfloor> \<le> y" by blast
    moreover from this(2) have "0 \<le> y" by (rule order_trans [OF powr_ge_zero])
    ultimately show ?thesis by blast
  next
    case False
    then have "\<lfloor>log 2 x\<rfloor> < - 1022" by simp
    from rnd_pos_subnormal [OF assms this] show ?thesis by blast
  qed
qed

lemma rnd_mono_pos:
  assumes "0 < x" and "x \<le> y"
  shows "jle (rnd x) (rnd y)"
proof (cases "y < overflow_threshold")
  case False
  then have "rnd y = PosInf" by (simp add: rnd_overflow)
  moreover have "rnd x \<noteq> NaN" using rnd_pos_cases [OF assms(1)] by auto
  ultimately show ?thesis by (simp add: jle_PosInf)
next
  case oy: True
  with assms have ox: "x < overflow_threshold" by simp
  from assms have y: "0 < y" by simp
  have kk: "\<lfloor>log 2 x\<rfloor> \<le> \<lfloor>log 2 y\<rfloor>" using assms by (rule floor_log2_mono)
  show ?thesis
  proof (cases "- 1022 \<le> \<lfloor>log 2 y\<rfloor>")
    case ny: True
    from rnd_pos_normal [OF y oy refl ny]
    obtain b where b: "rnd y = Num b" "2 powr of_int \<lfloor>log 2 y\<rfloor> \<le> b"
      "b = of_int (round_even (y / 2 powr of_int (\<lfloor>log 2 y\<rfloor> - 52)))
             * 2 powr of_int (\<lfloor>log 2 y\<rfloor> - 52)"
      by blast
    show ?thesis
    proof (cases "\<lfloor>log 2 x\<rfloor> = \<lfloor>log 2 y\<rfloor>")
      case same: True
      from ny same have nx: "- 1022 \<le> \<lfloor>log 2 x\<rfloor>" by simp
      from rnd_pos_normal [OF assms(1) ox refl nx]
      obtain a where a: "rnd x = Num a"
        "a = of_int (round_even (x / 2 powr of_int (\<lfloor>log 2 y\<rfloor> - 52)))
               * 2 powr of_int (\<lfloor>log 2 y\<rfloor> - 52)"
        unfolding same by blast
      have "x / 2 powr of_int (\<lfloor>log 2 y\<rfloor> - 52) \<le> y / 2 powr of_int (\<lfloor>log 2 y\<rfloor> - 52)"
        using assms(2) by (simp add: divide_right_mono)
      then have "round_even (x / 2 powr of_int (\<lfloor>log 2 y\<rfloor> - 52))
                 \<le> round_even (y / 2 powr of_int (\<lfloor>log 2 y\<rfloor> - 52))"
        by (rule round_even_mono)
      then have "a \<le> b" unfolding a(2) b(3) by (simp add: mult_right_mono)
      with a(1) b(1) show ?thesis by simp
    next
      case False
      with kk have lt: "\<lfloor>log 2 x\<rfloor> < \<lfloor>log 2 y\<rfloor>" by simp
      have "\<exists>a. rnd x = Num a \<and> a \<le> 2 powr of_int \<lfloor>log 2 y\<rfloor>"
      proof (cases "- 1022 \<le> \<lfloor>log 2 x\<rfloor>")
        case nx: True
        from rnd_pos_normal [OF assms(1) ox refl nx]
        obtain a where a: "rnd x = Num a" "a \<le> 2 powr of_int (\<lfloor>log 2 x\<rfloor> + 1)" by blast
        have "(2::real) powr of_int (\<lfloor>log 2 x\<rfloor> + 1) \<le> 2 powr of_int \<lfloor>log 2 y\<rfloor>"
          using lt by (intro p2_mono) linarith
        with a(2) have "a \<le> 2 powr of_int \<lfloor>log 2 y\<rfloor>" by (rule order_trans)
        with a(1) show ?thesis by blast
      next
        case False
        then have "\<lfloor>log 2 x\<rfloor> < - 1022" by simp
        from rnd_pos_subnormal [OF assms(1) this]
        obtain a where a: "rnd x = Num a" "a \<le> 2 powr of_int (- 1022)" by blast
        have "(2::real) powr of_int (- 1022) \<le> 2 powr of_int \<lfloor>log 2 y\<rfloor>"
          using ny by (rule p2_mono)
        with a(2) have "a \<le> 2 powr of_int \<lfloor>log 2 y\<rfloor>" by (rule order_trans)
        with a(1) show ?thesis by blast
      qed
      then obtain a where "rnd x = Num a" "a \<le> 2 powr of_int \<lfloor>log 2 y\<rfloor>" by blast
      with b(1,2) show ?thesis by simp
    qed
  next
    case False
    then have sy: "\<lfloor>log 2 y\<rfloor> < - 1022" by simp
    with kk have sx: "\<lfloor>log 2 x\<rfloor> < - 1022" by linarith
    from rnd_pos_subnormal [OF y sy]
    obtain b where b: "rnd y = Num b"
      "b = of_int (round_even (y / 2 powr of_int (- 1074))) * 2 powr of_int (- 1074)" by blast
    from rnd_pos_subnormal [OF assms(1) sx]
    obtain a where a: "rnd x = Num a"
      "a = of_int (round_even (x / 2 powr of_int (- 1074))) * 2 powr of_int (- 1074)" by blast
    have "x / 2 powr of_int (- 1074) \<le> y / 2 powr of_int (- 1074)"
      using assms(2) by (intro divide_right_mono) simp_all
    then have "round_even (x / 2 powr of_int (- 1074)) \<le> round_even (y / 2 powr of_int (- 1074))"
      by (rule round_even_mono)
    then have "a \<le> b" unfolding a(2) b(2) by (intro mult_right_mono) simp_all
    with a(1) b(1) show ?thesis by simp
  qed
qed

lemma rnd_nonneg: "0 \<le> x \<Longrightarrow> jle (Num 0) (rnd x)"
proof (cases "x = 0")
  case True
  then show ?thesis by simp
next
  case False
  assume "0 \<le> x"
  with False have "0 < x" by simp
  from rnd_pos_cases [OF this] show ?thesis by auto
qed

lemma rnd_nonpos: "x \<le> 0 \<Longrightarrow> jle (rnd x) (Num 0)"
proof -
  assume "x \<le> 0"
  then have "jle (Num 0) (rnd (- x))" by (intro rnd_nonneg) simp
  then have "jle (jneg (Num 0)) (jneg (rnd x))" by (simp add: rnd_minus)
  then show ?thesis by (simp only: jle_jneg)
qed

lemma rnd_mono:
  assumes "x \<le> y"
  shows "jle (rnd x) (rnd y)"
proof (cases "0 < x")
  case True
  then show ?thesis using assms by (rule rnd_mono_pos)
next
  case False
  then have x: "x \<le> 0" by simp
  show ?thesis
  proof (cases "0 \<le> y")
    case True
    from rnd_nonpos [OF x] rnd_nonneg [OF True] show ?thesis by (rule jle_trans)
  next
    case False
    then have "0 < - y" and "- y \<le> - x" using assms by simp_all
    then have "jle (rnd (- y)) (rnd (- x))" by (rule rnd_mono_pos)
    then show ?thesis by (simp only: rnd_minus jle_jneg)
  qed
qed

text \<open>Sandwich: a value rounded between two finite bounds is finite and between them.\<close>

lemma rnd_between:
  assumes "a \<le> x" and "x \<le> b" and "rnd a = Num a'" and "rnd b = Num b'"
  shows "\<exists>y. rnd x = Num y \<and> a' \<le> y \<and> y \<le> b'"
proof -
  from rnd_mono [OF assms(1)] rnd_mono [OF assms(2)] assms(3,4)
  have "jle (Num a') (rnd x)" "jle (rnd x) (Num b')" by simp_all
  then show ?thesis by (cases "rnd x") auto
qed

subsection \<open>Rounding at a given binade\<close>

lemma p2_neg_nat: "(2::real) powr of_int (- int j) = 1 / 2 ^ j"
  by (simp add: powr_minus powr_realpow divide_inverse)

lemma p2_int_nat: "(2::real) powr of_int (int j) = 2 ^ j"
  by (simp add: powr_realpow)

lemma rnd_dyadic:
  assumes q: "q = 2 powr of_int e" and e: "- 1074 \<le> e"
    and lo: "2 ^ 52 * q \<le> \<bar>x\<bar>" and hi: "\<bar>x\<bar> < 2 ^ 53 * q"
    and ov: "\<bar>x\<bar> < overflow_threshold"
    and near: "\<bar>x - of_int m * q\<bar> < q / 2"
  shows "rnd x = Num (of_int m * q)"
proof -
  have qpos: "0 < q" unfolding q by simp
  have lo': "2 powr of_int (e + 52) \<le> \<bar>x\<bar>"
    using lo unfolding p2_52 q by simp
  have hi': "\<bar>x\<bar> < 2 powr of_int (e + 53)"
    using hi unfolding p2_53 q by simp
  have "x / q - of_int m = (x - of_int m * q) / q" using qpos by (simp add: field_simps)
  then have "\<bar>x / q - of_int m\<bar> = \<bar>x - of_int m * q\<bar> / q" using qpos by simp
  also have "\<dots> < (q / 2) / q" using near qpos by (simp add: divide_strict_right_mono)
  also have "\<dots> = 1 / 2" using qpos by simp
  finally have "\<bar>x / 2 powr of_int e - of_int m\<bar> < 1 / 2" unfolding q .
  from rnd_normal [OF e lo' hi' ov this] show ?thesis unfolding q .
qed

lemma below_2_53_finite: "\<bar>x\<bar> < 2 ^ 53 \<Longrightarrow> \<bar>x\<bar> < overflow_threshold"
  by (simp add: overflow_threshold_def)

lemma rnd_frac:
  assumes j: "j \<le> 1074"
    and lo: "2 ^ 52 / 2 ^ j \<le> \<bar>x\<bar>" and hi: "\<bar>x\<bar> < 2 ^ 53 / 2 ^ j"
    and near: "\<bar>x - of_int m / 2 ^ j\<bar> < 1 / 2 ^ (j + 1)"
  shows "rnd x = Num (of_int m / 2 ^ j)"
proof -
  have q: "1 / 2 ^ j = (2::real) powr of_int (- int j)" by (rule p2_neg_nat [symmetric])
  have e: "- 1074 \<le> - int j" using j by simp
  have "(2::real) ^ 53 / 2 ^ j \<le> 2 ^ 53" by (simp add: field_simps)
  with hi have "\<bar>x\<bar> < 2 ^ 53" by simp
  then have ov: "\<bar>x\<bar> < overflow_threshold" by (rule below_2_53_finite)
  have "rnd x = Num (of_int m * (1 / 2 ^ j))"
    using lo hi near by (intro rnd_dyadic [OF q e _ _ ov]) simp_all
  then show ?thesis by simp
qed

lemma sqrt_between:
  assumes "0 \<le> lo" and "lo ^ 2 \<le> x" and "0 \<le> hi" and "x < hi ^ 2"
  shows "lo \<le> sqrt x" and "sqrt x < hi"
proof -
  from assms(2) show "lo \<le> sqrt x" by (rule real_le_rsqrt)
  from assms(3,4) show "sqrt x < hi" by (intro real_less_lsqrt) simp_all
qed

lemma sqrt_strictly_between:
  assumes "0 \<le> lo" and "lo ^ 2 < x" and "0 \<le> hi" and "x < hi ^ 2"
  shows "lo < sqrt x" and "sqrt x < hi"
proof -
  from assms(2) show "lo < sqrt x" by (rule real_less_rsqrt)
  from assms(3,4) show "sqrt x < hi" by (intro real_less_lsqrt) simp_all
qed

lemma near_from_bounds:
  fixes y :: real
  assumes P: "0 < P" and lo: "(M - 1 / 2) / P < y" and hi: "y < (M + 1 / 2) / P"
  shows "\<bar>y - M / P\<bar> < 1 / (2 * P)"
proof -
  from P lo have a: "M - 1 / 2 < y * P" by (simp add: pos_divide_less_eq)
  from P hi have b: "y * P < M + 1 / 2" by (simp add: pos_less_divide_eq)
  from a b have c: "\<bar>y * P - M\<bar> < 1 / 2" by linarith
  have "y - M / P = (y * P - M) / P" using P by (simp add: field_simps)
  then have "\<bar>y - M / P\<bar> = \<bar>y * P - M\<bar> / P" using P by simp
  also have "\<dots> < (1 / 2) / P" using c P by (rule divide_strict_right_mono)
  finally show ?thesis by simp
qed

lemma rnd_frac_sqrt:
  assumes j: "j \<le> 1074" and m: "1 \<le> m"
    and lo: "(2 ^ 52 / 2 ^ j) ^ 2 \<le> x" and hi: "x < (2 ^ 53 / 2 ^ j) ^ 2"
    and below: "((of_int m - 1 / 2) / 2 ^ j) ^ 2 < x"
    and above: "x < ((of_int m + 1 / 2) / 2 ^ j) ^ 2"
  shows "rnd (sqrt x) = Num (of_int m / 2 ^ j)"
proof -
  have p: "(0::real) \<le> 2 ^ 52 / 2 ^ j" "(0::real) \<le> 2 ^ 53 / 2 ^ j" by simp_all
  from sqrt_between [OF p(1) lo p(2) hi]
  have b: "(2::real) ^ 52 / 2 ^ j \<le> sqrt x" "sqrt x < 2 ^ 53 / 2 ^ j" .
  have m': "(0::real) \<le> (of_int m - 1 / 2) / 2 ^ j" "(0::real) \<le> (of_int m + 1 / 2) / 2 ^ j"
    using m by simp_all
  from sqrt_strictly_between [OF m'(1) below m'(2) above]
  have n: "(of_int m - 1 / 2) / 2 ^ j < sqrt x" "sqrt x < (of_int m + 1 / 2) / 2 ^ j" .
  have "0 \<le> sqrt x" using b(1) by (rule order_trans [rotated]) simp
  then have a: "\<bar>sqrt x\<bar> = sqrt x" by simp
  have "\<bar>sqrt x - of_int m / 2 ^ j\<bar> < 1 / (2 * 2 ^ j)"
    using n by (intro near_from_bounds) simp_all
  then have near: "\<bar>sqrt x - of_int m / 2 ^ j\<bar> < 1 / 2 ^ (j + 1)" by simp
  from b have b': "2 ^ 52 / 2 ^ j \<le> \<bar>sqrt x\<bar>" "\<bar>sqrt x\<bar> < 2 ^ 53 / 2 ^ j"
    by (simp_all only: a)
  from j b' near show ?thesis by (rule rnd_frac)
qed

lemma rnd_pow2:
  assumes "- 1022 \<le> K" and "K \<le> 1023"
  shows "rnd (2 powr of_int K) = Num (2 powr of_int K)"
proof -
  have e: "- 1074 \<le> K - 52" using assms by simp
  have a: "\<bar>(2::real) powr of_int K\<bar> = 2 powr of_int K" by simp
  have k: "(2::real) powr of_int K = of_int (2 ^ 52) * 2 powr of_int (K - 52)"
    using p2_52 [of "K - 52"] by simp
  have lo: "2 powr of_int (K - 52 + 52) \<le> \<bar>(2::real) powr of_int K\<bar>" by simp
  have hi: "\<bar>(2::real) powr of_int K\<bar> < 2 powr of_int (K - 52 + 53)"
    unfolding a by (intro p2_strict_mono) simp
  have "(2::real) powr of_int K \<le> 2 powr of_int 1023" using assms(2) by (rule p2_mono)
  also have "\<dots> = 2 ^ 1023" using p2_int_nat [of 1023] by simp
  also have "\<dots> < overflow_threshold" by (simp add: overflow_threshold_def)
  finally have ov: "\<bar>(2::real) powr of_int K\<bar> < overflow_threshold" unfolding a .
  have "(2::real) powr of_int K / 2 powr of_int (K - 52) = of_int (2 ^ 52)"
    unfolding p2_quot by (simp add: powr_int)
  then have near: "\<bar>(2::real) powr of_int K / 2 powr of_int (K - 52) - of_int (2 ^ 52)\<bar> < 1 / 2"
    by simp
  from rnd_normal [OF e lo hi ov near] k show ?thesis by simp
qed

lemma rnd_1: "rnd 1 = Num 1"
  using rnd_pow2 [of 0] by simp

lemma rnd_2: "rnd 2 = Num 2"
  using rnd_pow2 [of 1] by simp

lemma rnd_minus_1: "rnd (- 1) = Num (- 1)"
  using rnd_minus [of 1] by (simp add: rnd_1)

lemma rnd_100: "rnd 100 = Num 100"
proof -
  have "rnd 100 = Num (of_int 7036874417766400 / 2 ^ 46)"
    by (rule rnd_frac) simp_all
  then show ?thesis by simp
qed

section \<open>The price-ratio formula in doubles\<close>

subsection \<open>The range of the result\<close>

lemma p2_numeral: "(2::real) powr of_int (numeral n) = 2 ^ numeral n"
  using p2_int_nat [of "numeral n"] by simp

lemma rnd_nonneg_bounded:
  assumes "0 \<le> x" and "x < overflow_threshold"
  shows "\<exists>r. rnd x = Num r \<and> 0 \<le> r \<and> r \<le> 2 ^ 1024"
proof (cases "x = 0")
  case True
  then show ?thesis by simp
next
  case False
  with assms have x: "0 < x" by simp
  have "x < 2 ^ 1024" using assms(2) by (simp add: overflow_threshold_def)
  also have "\<dots> = 2 powr of_int 1024" using p2_int_nat [of 1024] by simp
  finally have "log 2 x < of_int 1024" using x by (simp add: log_less_iff)
  then have k: "\<lfloor>log 2 x\<rfloor> + 1 \<le> 1024" by linarith
  show ?thesis
  proof (cases "- 1022 \<le> \<lfloor>log 2 x\<rfloor>")
    case True
    from rnd_pos_normal [OF x assms(2) refl True]
    obtain y where y: "rnd x = Num y" "2 powr of_int \<lfloor>log 2 x\<rfloor> \<le> y"
      "y \<le> 2 powr of_int (\<lfloor>log 2 x\<rfloor> + 1)" by blast
    from y(2) have "0 \<le> y" by (rule order_trans [OF powr_ge_zero])
    moreover have "(2::real) powr of_int (\<lfloor>log 2 x\<rfloor> + 1) \<le> 2 powr of_int 1024"
      using k by (rule p2_mono)
    then have "(2::real) powr of_int (\<lfloor>log 2 x\<rfloor> + 1) \<le> 2 ^ 1024"
      using p2_int_nat [of 1024] by simp
    with y(3) have "y \<le> 2 ^ 1024" by (rule order_trans)
    ultimately show ?thesis using y(1) by blast
  next
    case False
    then have "\<lfloor>log 2 x\<rfloor> < - 1022" by simp
    from rnd_pos_subnormal [OF x this]
    obtain y where y: "rnd x = Num y" "0 \<le> y" "y \<le> 2 powr of_int (- 1022)" by blast
    have "(2::real) powr of_int (- 1022) \<le> 2 powr of_int 1024" by (rule p2_mono) simp
    then have "(2::real) powr of_int (- 1022) \<le> 2 ^ 1024"
      using p2_int_nat [of 1024] by simp
    with y(3) have "y \<le> 2 ^ 1024" by (rule order_trans)
    with y(1,2) show ?thesis by blast
  qed
qed

text \<open>A power of two between the square root of the ratio and one plus the ratio.\<close>

lemma power_of_two_between:
  assumes "0 \<le> r" and "r \<le> 2 ^ 1024"
  shows "\<exists>K. 0 \<le> K \<and> K \<le> 512 \<and> sqrt r \<le> 2 powr of_int K \<and> 2 powr of_int K \<le> 1 + r"
proof (cases "r \<le> 1")
  case True
  then have "sqrt r \<le> 1" by simp
  with assms(1) show ?thesis by (intro exI [of _ 0]) simp
next
  case False
  then have r: "1 < r" by simp
  then have s: "1 < sqrt r" by simp
  define K where "K = \<lceil>log 2 (sqrt r)\<rceil>"
  have up: "log 2 (sqrt r) \<le> of_int K" unfolding K_def by linarith
  have dn: "of_int K - 1 < log 2 (sqrt r)" unfolding K_def by linarith
  have "0 < log 2 (sqrt r)" using s by simp
  with up have "0 < (of_int K :: real)" by linarith
  then have K1: "1 \<le> K" by simp
  have sq: "((2::real) ^ 512) ^ 2 = 2 ^ 1024" by (simp only: power_mult [symmetric]) simp
  have "sqrt r \<le> sqrt (2 ^ 1024)" using assms(2) by (simp only: real_sqrt_le_iff)
  also have "\<dots> = 2 ^ 512"
    using sq by (intro real_sqrt_unique) (simp_all only: zero_le_power zero_le_numeral)
  also have "\<dots> = 2 powr of_int 512" by (rule p2_numeral [symmetric])
  finally have "sqrt r \<le> 2 powr of_int 512" .
  then have "log 2 (sqrt r) \<le> of_int 512" using s by (simp add: log_le_iff)
  with dn have "of_int K - 1 < (of_int 512 :: real)" by linarith
  then have K512: "K \<le> 512" by linarith
  have le: "sqrt r \<le> 2 powr of_int K" using up s by (simp add: log_le_iff)
  have "2 powr (of_int K - 1) < sqrt r" using dn s by (simp add: less_log_iff)
  then have lt: "2 powr of_int (K - 1) < sqrt r" by simp
  have "2 powr of_int K \<le> 1 + r"
  proof (cases "K = 1")
    case True
    then show ?thesis using r by simp
  next
    case False
    with K1 have K2: "2 \<le> K" by simp
    have "(2 powr of_int (K - 1)) ^ 2 < (sqrt r) ^ 2"
      using lt by (intro power_strict_mono) simp_all
    then have "(2 powr of_int (K - 1)) ^ 2 < r" using assms(1) by simp
    moreover have "((2::real) powr of_int (K - 1)) ^ 2 = 2 powr of_int (K - 1 + (K - 1))"
      unfolding p2_add by (simp add: power2_eq_square)
    moreover have "(2::real) powr of_int K \<le> 2 powr of_int (K - 1 + (K - 1))"
      using K2 by (intro p2_mono) simp
    ultimately show ?thesis by linarith
  qed
  with K1 K512 le show ?thesis by (intro exI [of _ K]) simp
qed

lemma quotient_range:
  assumes "0 \<le> r" and "r \<le> 2 ^ 1024"
  shows "\<exists>q. rn (Num 2 * rnd (sqrt r)) / rnd (1 + r) = Num q \<and> 0 \<le> q \<and> q \<le> 2"
proof -
  from power_of_two_between [OF assms]
  obtain K where K: "0 \<le> K" "K \<le> 512" "sqrt r \<le> 2 powr of_int K" "2 powr of_int K \<le> 1 + r"
    by blast
  have pK: "rnd (2 powr of_int K) = Num (2 powr of_int K)"
    using K(1,2) by (intro rnd_pow2) simp_all
  have pK1: "rnd (2 powr of_int (K + 1)) = Num (2 powr of_int (K + 1))"
    using K(1,2) by (intro rnd_pow2) simp_all
  have dbl: "(2::real) powr of_int (K + 1) = 2 * 2 powr of_int K"
    unfolding p2_add by simp
  have "0 \<le> sqrt r" using assms(1) by simp
  from rnd_between [OF this K(3) rnd_zero pK]
  obtain s where s: "rnd (sqrt r) = Num s" "0 \<le> s" "s \<le> 2 powr of_int K" by blast
  have "0 \<le> 2 * s" "2 * s \<le> 2 powr of_int (K + 1)" using s(2,3) unfolding dbl by simp_all
  from rnd_between [OF this rnd_zero pK1]
  obtain n where n: "rnd (2 * s) = Num n" "0 \<le> n" "n \<le> 2 * 2 powr of_int K"
    unfolding dbl by blast
  have num: "rn (Num 2 * rnd (sqrt r)) = Num n" using s(1) n(1) by simp
  from rnd_mono [OF K(4)] pK have d: "jle (Num (2 powr of_int K)) (rnd (1 + r))" by simp
  show ?thesis
  proof (cases "rnd (1 + r)")
    case (Num d')
    with d have d': "2 powr of_int K \<le> d'" by simp
    have pos: "0 < (2::real) powr of_int K" by simp
    with d' have dpos: "0 < d'" by linarith
    have "n \<le> 2 * d'" using n(3) d' by linarith
    then have "n / d' \<le> 2" using dpos by (simp add: pos_divide_le_eq)
    moreover have "0 \<le> n / d'" using n(2) dpos by simp
    moreover have "rn (Num 2 * rnd (sqrt r)) / rnd (1 + r) = Num (n / d')"
      using num Num dpos by simp
    ultimately show ?thesis by blast
  next
    case PosInf
    with num show ?thesis by simp
  next
    case NegInf
    with d show ?thesis by simp
  next
    case NaN
    with d show ?thesis by simp
  qed
qed

lemma loss_tail_range:
  assumes "0 \<le> q" and "q \<le> 2"
  shows "\<exists>x. rn (\<bar>rn (rnd q - Num 1)\<bar> * Num 100) = Num x \<and> 0 \<le> x \<and> x \<le> 100"
proof -
  from rnd_between [OF assms rnd_zero rnd_2]
  obtain q' where q': "rnd q = Num q'" "0 \<le> q'" "q' \<le> 2" by blast
  then have "- 1 \<le> q' - 1" "q' - 1 \<le> 1" by simp_all
  from rnd_between [OF this rnd_minus_1 rnd_1]
  obtain il where il: "rnd (q' - 1) = Num il" "- 1 \<le> il" "il \<le> 1" by blast
  then have "0 \<le> \<bar>il\<bar> * 100" "\<bar>il\<bar> * 100 \<le> 100" by simp_all
  from rnd_between [OF this rnd_zero rnd_100]
  obtain x where x: "rnd (\<bar>il\<bar> * 100) = Num x" "0 \<le> x" "x \<le> 100" by blast
  have "rn (\<bar>rn (rnd q - Num 1)\<bar> * Num 100) = Num x"
    using q'(1) il(1) x(1) by simp
  with x(2,3) show ?thesis by blast
qed

lemma calculateImpermanentLoss_range:
  assumes "0 \<le> priceRatio" and "0 < initialRatio"
    and "priceRatio / initialRatio < overflow_threshold"
  shows "\<exists>x. calculateImpermanentLoss priceRatio initialRatio = Num x \<and> 0 \<le> x \<and> x \<le> 100"
proof -
  from assms(1,2) have "0 \<le> priceRatio / initialRatio" by simp
  from rnd_nonneg_bounded [OF this assms(3)]
  obtain r where r: "rnd (priceRatio / initialRatio) = Num r" "0 \<le> r" "r \<le> 2 ^ 1024" by blast
  from quotient_range [OF r(2,3)]
  obtain q where q: "rn (Num 2 * rnd (sqrt r)) / rnd (1 + r) = Num q" "0 \<le> q" "q \<le> 2" by blast
  from loss_tail_range [OF q(2,3)]
  obtain x where x: "rn (\<bar>rn (rnd q - Num 1)\<bar> * Num 100) = Num x" "0 \<le> x" "x \<le> 100" by blast
  have ratio: "rn (Num priceRatio / Num initialRatio) = Num r" using assms(2) r(1) by simp
  have root: "rn (jsqrt (Num r)) = rnd (sqrt r)" using r(2) by simp
  have den: "rn (Num 1 + Num r) = rnd (1 + r)" by simp
  have "calculateImpermanentLoss priceRatio initialRatio = Num x"
    unfolding calculateImpermanentLoss_def Let_def ratio root den q(1) rn.simps(1)
    using x(1) .
  with x(2,3) show ?thesis by blast
qed

subsection \<open>Evaluations at sample ratios\<close>

lemma loss_1_10:
  "calculateImpermanentLoss 1 10 = Num (5981912192364416 / 2 ^ 47)"
proof -
  define r :: real where "r = 7205759403792794 / 2 ^ 56"
  define s :: real where "s = 5696652996790543 / 2 ^ 54"
  define n :: real where "n = 5696652996790543 / 2 ^ 53"
  define d :: real where "d = 4953959590107546 / 2 ^ 52"
  define q :: real where "q = 5178775451627766 / 2 ^ 53"
  define il :: real where "il = (- 7656847606226452) / 2 ^ 54"
  define res :: real where "res = 5981912192364416 / 2 ^ 47"
  have "rnd (1 / 10) = Num (of_int 7205759403792794 / 2 ^ 56)"
    by (rule rnd_frac) simp_all
  then have R: "rnd (1 / 10) = Num r" by (simp add: r_def)
  have "rnd (sqrt r) = Num (of_int 5696652996790543 / 2 ^ 54)"
    unfolding r_def by (rule rnd_frac_sqrt) (simp_all add: power2_eq_square)
  then have S: "rnd (sqrt r) = Num s" by (simp add: s_def)
  have "rnd (2 * s) = Num (of_int 5696652996790543 / 2 ^ 53)"
    unfolding s_def by (rule rnd_frac) simp_all
  then have N: "rnd (2 * s) = Num n" by (simp add: n_def)
  have "rnd (1 + r) = Num (of_int 4953959590107546 / 2 ^ 52)"
    unfolding r_def by (rule rnd_frac) simp_all
  then have D: "rnd (1 + r) = Num d" by (simp add: d_def)
  have "rnd (n / d) = Num (of_int 5178775451627766 / 2 ^ 53)"
    unfolding n_def d_def by (rule rnd_frac) simp_all
  then have Q: "rnd (n / d) = Num q" by (simp add: q_def)
  have "rnd (q - 1) = Num (of_int (- 7656847606226452) / 2 ^ 54)"
    unfolding q_def by (rule rnd_frac) simp_all
  then have IL: "rnd (q - 1) = Num il" by (simp add: il_def)
  have "rnd (\<bar>il\<bar> * 100) = Num (of_int 5981912192364416 / 2 ^ 47)"
    unfolding il_def by (rule rnd_frac) simp_all
  then have RES: "rnd (\<bar>il\<bar> * 100) = Num res" by (simp add: res_def)
  have r0: "\<not> r < 0" and d0: "d \<noteq> 0" by (simp_all add: r_def d_def)
  have "calculateImpermanentLoss 1 10 = Num res"
    by (simp add: calculateImpermanentLoss_def Let_def R [simplified] r0 S N D d0 Q IL RES)
  then show ?thesis by (simp add: res_def)
qed

lemma loss_10_1:
  "calculateImpermanentLoss 10 1 = Num (5981912192364414 / 2 ^ 47)"
proof -
  define r :: real where "r = 5629499534213120 / 2 ^ 49"
  define s :: real where "s = 7120816245988179 / 2 ^ 51"
  define n :: real where "n = 7120816245988179 / 2 ^ 50"
  define d :: real where "d = 6192449487634432 / 2 ^ 49"
  define q :: real where "q = 5178775451627767 / 2 ^ 53"
  define il :: real where "il = (- 7656847606226450) / 2 ^ 54"
  define res :: real where "res = 5981912192364414 / 2 ^ 47"
  have "rnd (10) = Num (of_int 5629499534213120 / 2 ^ 49)"
    by (rule rnd_frac) simp_all
  then have R: "rnd (10) = Num r" by (simp add: r_def)
  have "rnd (sqrt r) = Num (of_int 7120816245988179 / 2 ^ 51)"
    unfolding r_def by (rule rnd_frac_sqrt) (simp_all add: power2_eq_square)
  then have S: "rnd (sqrt r) = Num s" by (simp add: s_def)
  have "rnd (2 * s) = Num (of_int 7120816245988179 / 2 ^ 50)"
    unfolding s_def by (rule rnd_frac) simp_all
  then have N: "rnd (2 * s) = Num n" by (simp add: n_def)
  have "rnd (1 + r) = Num (of_int 6192449487634432 / 2 ^ 49)"
    unfolding r_def by (rule rnd_frac) simp_all
  then have D: "rnd (1 + r) = Num d" by (simp add: d_def)
  have "rnd (n / d) = Num (of_int 5178775451627767 / 2 ^ 53)"
    unfolding n_def d_def by (rule rnd_frac) simp_all
  then have Q: "rnd (n / d) = Num q" by (simp add: q_def)
  have "rnd (q - 1) = Num (of_int (- 7656847606226450) / 2 ^ 54)"
    unfolding q_def by (rule rnd_frac) simp_all
  then have IL: "rnd (q - 1) = Num il" by (simp add: il_def)
  have "rnd (\<bar>il\<bar> * 100) = Num (of_int 5981912192364414 / 2 ^ 47)"
    unfolding il_def by (rule rnd_frac) simp_all
  then have RES: "rnd (\<bar>il\<bar> * 100) = Num res" by (simp add: res_def)
  have r0: "\<not> r < 0" and d0: "d \<noteq> 0" by (simp_all add: r_def d_def)
  have "calculateImpermanentLoss 10 1 = Num res"
    by (simp add: calculateImpermanentLoss_def Let_def R [simplified] r0 S N D d0 Q IL RES)
  then show ?thesis by (simp add: res_def)
qed

lemma loss_4_1:
  "calculateImpermanentLoss 4 1 = Num (5629499534213119 / 2 ^ 48)"
proof -
  define r :: real where "r = 4503599627370496 / 2 ^ 50"
  define s :: real where "s = 4503599627370496 / 2 ^ 51"
  define n :: real where "n = 4503599627370496 / 2 ^ 50"
  define d :: real where "d = 5629499534213120 / 2 ^ 50"
  define q :: real where "q = 7205759403792794 / 2 ^ 53"
  define il :: real where "il = (- 7205759403792792) / 2 ^ 55"
  define res :: real where "res = 5629499534213119 / 2 ^ 48"
  have "rnd (4) = Num (of_int 4503599627370496 / 2 ^ 50)"
    by (rule rnd_frac) simp_all
  then have R: "rnd (4) = Num r" by (simp add: r_def)
  have "rnd (sqrt r) = Num (of_int 4503599627370496 / 2 ^ 51)"
    unfolding r_def by (rule rnd_frac_sqrt) (simp_all add: power2_eq_square)
  then have S: "rnd (sqrt r) = Num s" by (simp add: s_def)
  have "rnd (2 * s) = Num (of_int 4503599627370496 / 2 ^ 50)"
    unfolding s_def by (rule rnd_frac) simp_all
  then have N: "rnd (2 * s) = Num n" by (simp add: n_def)
  have "rnd (1 + r) = Num (of_int 5629499534213120 / 2 ^ 50)"
    unfolding r_def by (rule rnd_frac) simp_all
  then have D: "rnd (1 + r) = Num d" by (simp add: d_def)
  have "rnd (n / d) = Num (of_int 7205759403792794 / 2 ^ 53)"
    unfolding n_def d_def by (rule rnd_frac) simp_all
  then have Q: "rnd (n / d) = Num q" by (simp add: q_def)
  have "rnd (q - 1) = Num (of_int (- 7205759403792792) / 2 ^ 55)"
    unfolding q_def by (rule rnd_frac) simp_all
  then have IL: "rnd (q - 1) = Num il" by (simp add: il_def)
  have "rnd (\<bar>il\<bar> * 100) = Num (of_int 5629499534213119 / 2 ^ 48)"
    unfolding il_def by (rule rnd_frac) simp_all
  then have RES: "rnd (\<bar>il\<bar> * 100) = Num res" by (simp add: res_def)
  have r0: "\<not> r < 0" and d0: "d \<noteq> 0" by (simp_all add: r_def d_def)
  have "calculateImpermanentLoss 4 1 = Num res"
    by (simp add: calculateImpermanentLoss_def Let_def R [simplified] r0 S N D d0 Q IL RES)
  then show ?thesis by (simp add: res_def)
qed

lemma loss_1_4:
  "calculateImpermanentLoss 1 4 = Num (5629499534213119 / 2 ^ 48)"
proof -
  define r :: real where "r = 4503599627370496 / 2 ^ 54"
  define s :: real where "s = 4503599627370496 / 2 ^ 53"
  define n :: real where "n = 4503599627370496 / 2 ^ 52"
  define d :: real where "d = 5629499534213120 / 2 ^ 52"
  define q :: real where "q = 7205759403792794 / 2 ^ 53"
  define il :: real where "il = (- 7205759403792792) / 2 ^ 55"
  define res :: real where "res = 5629499534213119 / 2 ^ 48"
  have "rnd (1 / 4) = Num (of_int 4503599627370496 / 2 ^ 54)"
    by (rule rnd_frac) simp_all
  then have R: "rnd (1 / 4) = Num r" by (simp add: r_def)
  have "rnd (sqrt r) = Num (of_int 4503599627370496 / 2 ^ 53)"
    unfolding r_def by (rule rnd_frac_sqrt) (simp_all add: power2_eq_square)
  then have S: "rnd (sqrt r) = Num s" by (simp add: s_def)
  have "rnd (2 * s) = Num (of_int 4503599627370496 / 2 ^ 52)"
    unfolding s_def by (rule rnd_frac) simp_all
  then have N: "rnd (2 * s) = Num n" by (simp add: n_def)
  have "rnd (1 + r) = Num (of_int 5629499534213120 / 2 ^ 52)"
    unfolding r_def by (rule rnd_frac) simp_all
  then have D: "rnd (1 + r) = Num d" by (simp add: d_def)
  have "rnd (n / d) = Num (of_int 7205759403792794 / 2 ^ 53)"
    unfolding n_def d_def by (rule rnd_frac) simp_all
  then have Q: "rnd (n / d) = Num q" by (simp add: q_def)
  have "rnd (q - 1) = Num (of_int (- 7205759403792792) / 2 ^ 55)"
    unfolding q_def by (rule rnd_frac) simp_all
  then have IL: "rnd (q - 1) = Num il" by (simp add: il_def)
  have "rnd (\<bar>il\<bar> * 100) = Num (of_int 5629499534213119 / 2 ^ 48)"
    unfolding il_def by (rule rnd_frac) simp_all
  then have RES: "rnd (\<bar>il\<bar> * 100) = Num res" by (simp add: res_def)
  have r0: "\<not> r < 0" and d0: "d \<noteq> 0" by (simp_all add: r_def d_def)
  have "calculateImpermanentLoss 1 4 = Num res"
    by (simp add: calculateImpermanentLoss_def Let_def R [simplified] r0 S N D d0 Q IL RES)
  then show ?thesis by (simp add: res_def)
qed

lemma loss_tiny:
  "calculateImpermanentLoss (1 / 2 ^ 120) 1 = Num (100)"
proof -
  define r :: real where "r = 4503599627370496 / 2 ^ 172"
  define s :: real where "s = 4503599627370496 / 2 ^ 112"
  define n :: real where "n = 4503599627370496 / 2 ^ 111"
  define d :: real where "d = 4503599627370496 / 2 ^ 52"
  define q :: real where "q = 4503599627370496 / 2 ^ 111"
  define il :: real where "il = (- 9007199254740992) / 2 ^ 53"
  define res :: real where "res = 7036874417766400 / 2 ^ 46"
  have "rnd ((1 / 2 ^ 120)) = Num (of_int 4503599627370496 / 2 ^ 172)"
    by (rule rnd_frac) simp_all
  then have R: "rnd ((1 / 2 ^ 120)) = Num r" by (simp add: r_def)
  have "rnd (sqrt r) = Num (of_int 4503599627370496 / 2 ^ 112)"
    unfolding r_def by (rule rnd_frac_sqrt) (simp_all add: power2_eq_square)
  then have S: "rnd (sqrt r) = Num s" by (simp add: s_def)
  have "rnd (2 * s) = Num (of_int 4503599627370496 / 2 ^ 111)"
    unfolding s_def by (rule rnd_frac) simp_all
  then have N: "rnd (2 * s) = Num n" by (simp add: n_def)
  have "rnd (1 + r) = Num (of_int 4503599627370496 / 2 ^ 52)"
    unfolding r_def by (rule rnd_frac) simp_all
  then have D: "rnd (1 + r) = Num d" by (simp add: d_def)
  have "rnd (n / d) = Num (of_int 4503599627370496 / 2 ^ 111)"
    unfolding n_def d_def by (rule rnd_frac) simp_all
  then have Q: "rnd (n / d) = Num q" by (simp add: q_def)
  have "rnd (q - 1) = Num (of_int (- 9007199254740992) / 2 ^ 53)"
    unfolding q_def by (rule rnd_frac) simp_all
  then have IL: "rnd (q - 1) = Num il" by (simp add: il_def)
  have "rnd (\<bar>il\<bar> * 100) = Num (of_int 7036874417766400 / 2 ^ 46)"
    unfolding il_def by (rule rnd_frac) simp_all
  then have RES: "rnd (\<bar>il\<bar> * 100) = Num res" by (simp add: res_def)
  have r0: "\<not> r < 0" and d0: "d \<noteq> 0" by (simp_all add: r_def d_def)
  have "calculateImpermanentLoss (1 / 2 ^ 120) 1 = Num res"
    by (simp add: calculateImpermanentLoss_def Let_def R [simplified] r0 S N D d0 Q IL RES)
  then show ?thesis by (simp add: res_def)
qed

lemma loss_overflow: "calculateImpermanentLoss (2 ^ 600) (1 / 2 ^ 600) = NaN"
proof -
  have "overflow_threshold \<le> 2 ^ 600 / (1 / 2 ^ 600)"
    by (simp add: overflow_threshold_def)
  then have "rnd (2 ^ 600 / (1 / 2 ^ 600)) = PosInf" by (rule rnd_overflow)
  then show ?thesis by (simp add: calculateImpermanentLoss_def Let_def)
qed

lemma loss_negative_ratio: "calculateImpermanentLoss (- 1) 1 = NaN"
  by (simp add: calculateImpermanentLoss_def Let_def rnd_minus_1)

lemma loss_zero_initial: "calculateImpermanentLoss 1 0 = NaN"
  by (simp add: calculateImpermanentLoss_def Let_def)

lemma loss_zero_ratio: "calculateImpermanentLoss 0 1 = Num 100"
  by (simp add: calculateImpermanentLoss_def Let_def rnd_1 rnd_minus_1 rnd_100)

lemma loss_unit_ratio: "calculateImpermanentLoss 1 1 = Num 0"
  by (simp add: calculateImpermanentLoss_def Let_def rnd_1 rnd_2)

subsection \<open>The error of one rounding\<close>

lemma p2_half: "(2::real) powr of_int e / 2 = 2 powr of_int (e - 1)"
  using p2_quot [of e 1] by simp

lemma p2_over_53: "(2::real) powr of_int (j - 53) = 2 powr of_int j / 2 ^ 53"
proof -
  have "(2::real) powr of_int (j - 53) = 2 powr of_int j / 2 powr of_int 53"
    by (rule p2_quot [symmetric])
  then show ?thesis unfolding p2_numeral by simp
qed

lemma round_even_scaled_err:
  assumes "0 < q"
  shows "\<bar>of_int (round_even (x / q)) * q - x\<bar> \<le> q / 2"
proof -
  define t :: real where "t = of_int (round_even (x / q))"
  have "x / q - 1 / 2 \<le> t" "t \<le> x / q + 1 / 2"
    unfolding t_def by (rule round_even_lower, rule round_even_upper)
  then have a: "\<bar>t - x / q\<bar> \<le> 1 / 2" by linarith
  have "t * q - x = (t - x / q) * q" using assms by (simp add: field_simps)
  then have "\<bar>t * q - x\<bar> = \<bar>t - x / q\<bar> * q" using assms by (simp add: abs_mult)
  also have "\<dots> \<le> (1 / 2) * q" using a assms by (intro mult_right_mono) simp_all
  finally show ?thesis unfolding t_def by simp
qed

lemma floor_log2_le:
  assumes "0 < x" and "x \<le> 2 powr of_int k"
  shows "\<lfloor>log 2 x\<rfloor> \<le> k"
proof -
  from assms have "log 2 x \<le> of_int k" by (simp add: log_le_iff)
  then show ?thesis by linarith
qed

lemma floor_log2_ge:
  assumes "2 powr of_int k \<le> x"
  shows "k \<le> \<lfloor>log 2 x\<rfloor>"
proof -
  have "0 < (2::real) powr of_int k" by simp
  with assms have x: "0 < x" by linarith
  with assms have "of_int k \<le> log 2 x" by (simp add: le_log_iff)
  then show ?thesis by linarith
qed

lemma below_p2_1023_finite:
  assumes "x \<le> 2 powr of_int k" and "k \<le> 1023"
  shows "x < overflow_threshold"
proof -
  have "(2::real) powr of_int k \<le> 2 powr of_int 1023" using assms(2) by (rule p2_mono)
  also have "\<dots> = 2 ^ 1023" by (rule p2_numeral)
  also have "\<dots> < overflow_threshold" by (simp add: overflow_threshold_def)
  finally show ?thesis using assms(1) by linarith
qed

lemma rnd_abs_err_pos:
  assumes x: "0 < x" "x \<le> 2 powr of_int k" and k: "- 1022 \<le> k" "k \<le> 1023"
  shows "\<exists>y. rnd x = Num y \<and> \<bar>y - x\<bar> \<le> 2 powr of_int (k - 53)"
proof -
  have ov: "x < overflow_threshold" using x(2) k(2) by (rule below_p2_1023_finite)
  have jk: "\<lfloor>log 2 x\<rfloor> \<le> k" using x by (rule floor_log2_le)
  show ?thesis
  proof (cases "- 1022 \<le> \<lfloor>log 2 x\<rfloor>")
    case True
    from rnd_pos_normal [OF x(1) ov refl True]
    obtain y where y: "rnd x = Num y"
      "y = of_int (round_even (x / 2 powr of_int (\<lfloor>log 2 x\<rfloor> - 52)))
             * 2 powr of_int (\<lfloor>log 2 x\<rfloor> - 52)" by blast
    have "\<bar>y - x\<bar> \<le> 2 powr of_int (\<lfloor>log 2 x\<rfloor> - 52) / 2"
      unfolding y(2) by (rule round_even_scaled_err) simp
    also have "\<dots> = 2 powr of_int (\<lfloor>log 2 x\<rfloor> - 52 - 1)" by (rule p2_half)
    also have "\<dots> \<le> 2 powr of_int (k - 53)" using jk by (intro p2_mono) simp
    finally show ?thesis using y(1) by blast
  next
    case False
    then have "\<lfloor>log 2 x\<rfloor> < - 1022" by simp
    from rnd_pos_subnormal [OF x(1) this]
    obtain y where y: "rnd x = Num y"
      "y = of_int (round_even (x / 2 powr of_int (- 1074))) * 2 powr of_int (- 1074)" by blast
    have "\<bar>y - x\<bar> \<le> 2 powr of_int (- 1074) / 2"
      unfolding y(2) by (rule round_even_scaled_err) simp
    also have "\<dots> = 2 powr of_int (- 1074 - 1)" by (rule p2_half)
    also have "\<dots> \<le> 2 powr of_int (k - 53)" using k(1) by (intro p2_mono) simp
    finally show ?thesis using y(1) by blast
  qed
qed

lemma rnd_abs_err:
  assumes x: "\<bar>x\<bar> \<le> 2 powr of_int k" and k: "- 1022 \<le> k" "k \<le> 1023"
  shows "\<exists>y. rnd x = Num y \<and> \<bar>y - x\<bar> \<le> 2 powr of_int (k - 53)"
proof (cases "x = 0")
  case True
  then show ?thesis by simp
next
  case nz: False
  show ?thesis
  proof (cases "0 < x")
    case True
    with x have "x \<le> 2 powr of_int k" by simp
    from rnd_abs_err_pos [OF True this k] show ?thesis .
  next
    case False
    with nz have n: "0 < - x" by simp
    with x have "- x \<le> 2 powr of_int k" by simp
    from rnd_abs_err_pos [OF n this k]
    obtain y where y: "rnd (- x) = Num y" "\<bar>y - (- x)\<bar> \<le> 2 powr of_int (k - 53)" by blast
    from y(1) have "rnd x = Num (- y)" unfolding rnd_minus by (cases "rnd x") simp_all
    moreover have "\<bar>- y - x\<bar> = \<bar>y - (- x)\<bar>" by simp
    ultimately show ?thesis using y(2) by (intro exI [of _ "- y"]) (simp only: simp_thms)
  qed
qed

lemma rnd_rel_err:
  assumes "2 powr of_int (- 1022) \<le> x" and ov: "x < overflow_threshold"
  shows "\<exists>y. rnd x = Num y \<and> \<bar>y - x\<bar> \<le> x / 2 ^ 53"
proof -
  have "0 < (2::real) powr of_int (- 1022)" by simp
  with assms(1) have x: "0 < x" by linarith
  have n: "- 1022 \<le> \<lfloor>log 2 x\<rfloor>" using assms(1) by (rule floor_log2_ge)
  from x have nz: "x \<noteq> 0" by simp
  from floor_log2_bounds(1) [OF nz] x have lo: "2 powr of_int \<lfloor>log 2 x\<rfloor> \<le> x" by simp
  from rnd_pos_normal [OF x ov refl n]
  obtain y where y: "rnd x = Num y"
    "y = of_int (round_even (x / 2 powr of_int (\<lfloor>log 2 x\<rfloor> - 52)))
           * 2 powr of_int (\<lfloor>log 2 x\<rfloor> - 52)" by blast
  have "\<bar>y - x\<bar> \<le> 2 powr of_int (\<lfloor>log 2 x\<rfloor> - 52) / 2"
    unfolding y(2) by (rule round_even_scaled_err) simp
  also have "\<dots> = 2 powr of_int (\<lfloor>log 2 x\<rfloor> - 52 - 1)" by (rule p2_half)
  also have "\<dots> = 2 powr of_int (\<lfloor>log 2 x\<rfloor> - 53)" by simp
  also have "\<dots> = 2 powr of_int \<lfloor>log 2 x\<rfloor> / 2 ^ 53" by (rule p2_over_53)
  also have "\<dots> \<le> x / 2 ^ 53" using lo by (intro divide_right_mono) simp_all
  finally show ?thesis using y(1) by blast
qed

text \<open>
  A quantity known up to factors \<open>a\<close> and \<open>b\<close> of an exact value \<open>E\<close> is known, after
  rounding, up to the factors \<open>a (1 - 2 ^ -53)\<close> and \<open>b (1 + 2 ^ -53)\<close>.
\<close>

lemma abs_err_bounds:
  fixes x :: real
  assumes "\<bar>y - x\<bar> \<le> x * u"
  shows "x * (1 - u) \<le> y" and "y \<le> x * (1 + u)"
  using assms by (simp_all add: abs_le_iff algebra_simps)

lemma rnd_factor:
  assumes E: "1 / 2 ^ 400 \<le> E" "E \<le> 2 ^ 400"
    and a: "1 / 2 \<le> a" and b: "b \<le> 2"
    and lo: "a * E \<le> x" and hi: "x \<le> b * E"
  shows "\<exists>y. rnd x = Num y \<and> a * (1 - 1 / 2 ^ 53) * E \<le> y \<and> y \<le> b * (1 + 1 / 2 ^ 53) * E"
proof -
  have Epos: "0 < E" using E(1) by (rule less_le_trans [rotated]) simp
  have "(1 / 2) * (1 / 2 ^ 400) \<le> a * E"
    using a E(1) by (intro mult_mono) simp_all
  with lo have x1: "1 / 2 ^ 401 \<le> x" by simp
  have "(1::real) / 2 ^ 1022 \<le> 1 / 2 ^ 401" by simp
  with x1 have "(1::real) / 2 ^ 1022 \<le> x" by (rule order_trans [rotated])
  moreover have "(2::real) powr of_int (- 1022) = 1 / 2 ^ 1022"
    using p2_neg_nat [of 1022] by simp
  ultimately have n: "2 powr of_int (- 1022) \<le> x" by simp
  have xpos: "0 < x" using x1 by (rule less_le_trans [rotated]) simp
  have "b * E \<le> 2 * 2 ^ 400" using b E(2) Epos xpos hi
    by (intro mult_mono) (simp_all add: less_imp_le)
  with hi have "x \<le> 2 ^ 401" by simp
  also have "(2::real) ^ 401 < overflow_threshold" by (simp add: overflow_threshold_def)
  finally have ov: "x < overflow_threshold" .
  from rnd_rel_err [OF n ov]
  obtain y where y: "rnd x = Num y" "\<bar>y - x\<bar> \<le> x / 2 ^ 53" by blast
  define u :: real where "u = 1 / 2 ^ 53"
  have u: "0 < u" "u < 1" by (simp_all add: u_def)
  from y(2) have "\<bar>y - x\<bar> \<le> x * u" by (simp add: u_def)
  from abs_err_bounds [OF this]
  have y1: "x * (1 - u) \<le> y" and y2: "y \<le> x * (1 + u)" .
  have "a * (1 - u) * E = (a * E) * (1 - u)" by (simp add: mult_ac)
  also have "\<dots> \<le> x * (1 - u)" using lo u by (intro mult_right_mono) simp_all
  finally have "a * (1 - u) * E \<le> x * (1 - u)" .
  then have l: "a * (1 - u) * E \<le> y" using y1 by (rule order_trans)
  have "x * (1 + u) \<le> (b * E) * (1 + u)"
    using hi u by (intro mult_right_mono) simp_all
  also have "\<dots> = b * (1 + u) * E" by (simp add: mult_ac)
  finally have "x * (1 + u) \<le> b * (1 + u) * E" .
  with y2 have h: "y \<le> b * (1 + u) * E" by (rule order_trans)
  from l h y(1) show ?thesis unfolding u_def by blast
qed

subsection \<open>The exact formula\<close>

lemma il_core_bounds:
  assumes "0 \<le> (r::real)"
  shows "0 \<le> 2 * sqrt r / (1 + r)" and "2 * sqrt r / (1 + r) \<le> 1"
proof -
  from assms have s: "0 \<le> sqrt r" by simp
  from assms have sq: "sqrt r * sqrt r = r" by simp
  have "0 \<le> (1 - sqrt r) * (1 - sqrt r)" by simp
  also have "\<dots> = 1 + r - 2 * sqrt r" using sq by (simp add: algebra_simps)
  finally have le: "2 * sqrt r \<le> 1 + r" by simp
  from assms have pos: "0 < 1 + r" by simp
  from s pos show "0 \<le> 2 * sqrt r / (1 + r)" by simp
  from le pos show "2 * sqrt r / (1 + r) \<le> 1" by simp
qed

lemma il_core_sym:
  assumes "0 < (r::real)"
  shows "2 * sqrt (1 / r) / (1 + 1 / r) = 2 * sqrt r / (1 + r)"
proof -
  from assms have s: "0 < sqrt r" by simp
  from assms have sq: "sqrt r * sqrt r = r" by simp
  have "sqrt (1 / r) = 1 / sqrt r" by (simp add: real_sqrt_divide)
  moreover have "1 / sqrt r = sqrt r / r" using s sq assms by (simp add: field_simps)
  ultimately have "2 * sqrt (1 / r) / (1 + 1 / r) = 2 * (sqrt r / r) / (1 + 1 / r)" by simp
  also have "\<dots> = 2 * sqrt r / (1 + r)" using assms by (simp add: field_simps)
  finally show ?thesis .
qed

lemma sqrt_mid_bounds:
  assumes "1 / 2 ^ 120 \<le> (r::real)" and "r \<le> 2 ^ 120"
  shows "1 / 2 ^ 60 \<le> sqrt r" and "sqrt r \<le> 2 ^ 60"
proof -
  have "((1::real) / 2 ^ 60)\<^sup>2 = 1 / 2 ^ 120" by (simp add: power2_eq_square)
  with assms(1) have "((1::real) / 2 ^ 60)\<^sup>2 \<le> r" by simp
  then show "1 / 2 ^ 60 \<le> sqrt r" by (rule real_le_rsqrt)
  have "((2::real) ^ 60)\<^sup>2 = 2 ^ 120" by (simp add: power2_eq_square)
  with assms(2) have "r \<le> ((2::real) ^ 60)\<^sup>2" by simp
  then show "sqrt r \<le> 2 ^ 60" by (intro real_le_lsqrt) simp_all
qed

lemma il_core_mid_lower:
  assumes "1 / 2 ^ 120 \<le> (r::real)" and "r \<le> 2 ^ 120"
  shows "1 / 2 ^ 400 \<le> 2 * sqrt r / (1 + r)"
proof -
  from assms(1) have r: "0 < r" by (rule less_le_trans [rotated]) simp
  then have d: "0 < 1 + r" by simp
  have "1 + r \<le> 2 ^ 121" using assms(2) by simp
  moreover have "(1::real) / 2 ^ 59 \<le> 2 * sqrt r" using sqrt_mid_bounds(1) [OF assms] by simp
  ultimately have "(1 / 2 ^ 59) / 2 ^ 121 \<le> 2 * sqrt r / (1 + r)"
    using d r by (intro frac_le) simp_all
  moreover have "(1::real) / 2 ^ 400 \<le> (1 / 2 ^ 59) / 2 ^ 121" by simp
  ultimately show ?thesis by (rule order_trans [rotated])
qed

subsection \<open>Factors of the exact value through the steps of the formula\<close>

lemma rnd_factor_u:
  assumes u: "u = 1 / 2 ^ 53"
    and E: "1 / 2 ^ 400 \<le> E" "E \<le> 2 ^ 400"
    and a: "1 / 2 \<le> a" and b: "b \<le> 2"
    and lo: "a * E \<le> x" and hi: "x \<le> b * E"
  shows "\<exists>y. rnd x = Num y \<and> a * (1 - u) * E \<le> y \<and> y \<le> b * (1 + u) * E"
  unfolding u using E a b lo hi by (rule rnd_factor)

lemma sqrt_factor:
  assumes u: "0 \<le> u" "u \<le> 1" and rho: "0 \<le> \<rho>"
    and lo: "(1 - u) * \<rho> \<le> r" and hi: "r \<le> (1 + u) * \<rho>"
  shows "(1 - u) * sqrt \<rho> \<le> sqrt r" and "sqrt r \<le> (1 + u) * sqrt \<rho>"
proof -
  have sq: "(sqrt \<rho>)\<^sup>2 = \<rho>" using rho by simp
  have "((1 - u) * sqrt \<rho>)\<^sup>2 = (1 - u) * ((1 - u) * \<rho>)"
    unfolding power_mult_distrib sq by (simp add: power2_eq_square)
  also have "\<dots> \<le> 1 * ((1 - u) * \<rho>)"
    using u rho by (intro mult_right_mono mult_nonneg_nonneg) simp_all
  also have "\<dots> \<le> r" using lo by simp
  finally show "(1 - u) * sqrt \<rho> \<le> sqrt r" by (rule real_le_rsqrt)
  have "r \<le> 1 * ((1 + u) * \<rho>)" using hi by simp
  also have "\<dots> \<le> (1 + u) * ((1 + u) * \<rho>)"
    using u rho by (intro mult_right_mono mult_nonneg_nonneg) simp_all
  also have "\<dots> = ((1 + u) * sqrt \<rho>)\<^sup>2"
    unfolding power_mult_distrib sq by (simp add: power2_eq_square)
  finally have "r \<le> ((1 + u) * sqrt \<rho>)\<^sup>2" .
  moreover have "0 \<le> (1 + u) * sqrt \<rho>" using u rho by simp
  ultimately show "sqrt r \<le> (1 + u) * sqrt \<rho>" by (intro real_le_lsqrt)
qed

lemma succ_factor:
  fixes u :: real
  assumes u: "0 \<le> u" and rho: "0 \<le> \<rho>"
    and lo: "(1 - u) * \<rho> \<le> r" and hi: "r \<le> (1 + u) * \<rho>"
  shows "(1 - u) * (1 + \<rho>) \<le> 1 + r" and "1 + r \<le> (1 + u) * (1 + \<rho>)"
proof -
  have "(1 - u) * (1 + \<rho>) = (1 - u) + (1 - u) * \<rho>" by (simp add: algebra_simps)
  also have "\<dots> \<le> 1 + r" using u lo by simp
  finally show "(1 - u) * (1 + \<rho>) \<le> 1 + r" .
  have "1 + r \<le> (1 + u) + (1 + u) * \<rho>" using u hi by simp
  also have "\<dots> = (1 + u) * (1 + \<rho>)" by (simp add: algebra_simps)
  finally show "1 + r \<le> (1 + u) * (1 + \<rho>)" .
qed

lemma quotient_factor:
  fixes n d :: real
  assumes pos: "0 < al" "0 < ah" "0 < bl" "0 \<le> N" "0 < D"
    and n: "al * N \<le> n" "n \<le> ah * N"
    and d: "bl * D \<le> d" "d \<le> bh * D"
  shows "(al / bh) * (N / D) \<le> n / d" and "n / d \<le> (ah / bl) * (N / D)"
proof -
  have dpos: "0 < d" using pos d(1) by (intro less_le_trans [OF _ d(1)]) simp
  have bh: "0 < bh * D" using dpos d(2) by linarith
  have n0: "0 \<le> al * N" using pos by simp
  have "(al * N) / (bh * D) \<le> n / d"
    using n(1) d(2) dpos n0 by (intro frac_le) simp_all
  then show "(al / bh) * (N / D) \<le> n / d" by simp
  have blD: "0 < bl * D" using pos by simp
  have nn: "0 \<le> n" using n0 n(1) by linarith
  have "n / d \<le> (ah * N) / (bl * D)"
    using n(2) d(1) blD nn pos by (intro frac_le) simp_all
  then show "n / d \<le> (ah / bl) * (N / D)" by simp
qed

subsection \<open>The error of the rounded formula for ratios between 2 ^ -120 and 2 ^ 120\<close>

lemma total_err:
  fixes x A t :: real
  assumes "\<bar>x - A * 100\<bar> \<le> e2" and "\<bar>A - t\<bar> \<le> e"
  shows "\<bar>x - t * 100\<bar> \<le> e2 + 100 * e"
proof -
  have "x - t * 100 = (x - A * 100) + (A - t) * 100" by (simp add: algebra_simps)
  then have "\<bar>x - t * 100\<bar> \<le> \<bar>x - A * 100\<bar> + \<bar>(A - t) * 100\<bar>"
    by (simp only: abs_triangle_ineq)
  also have "\<bar>(A - t) * 100\<bar> = \<bar>A - t\<bar> * 100" by (simp only: abs_mult abs_numeral)
  finally show ?thesis using assms by linarith
qed

lemma loss_middle_error:
  assumes i: "0 < i" and lo: "1 / 2 ^ 120 \<le> p / i" and hi: "p / i \<le> 2 ^ 120"
  shows "\<exists>x. calculateImpermanentLoss p i = Num x
           \<and> \<bar>x - (1 - 2 * sqrt (p / i) / (1 + p / i)) * 100\<bar> \<le> 1 / 2 ^ 42"
proof -
  define \<rho> where "\<rho> = p / i"
  define S where "S = sqrt \<rho>"
  define g where "g = 2 * S / (1 + \<rho>)"
  define u :: real where "u = 1 / 2 ^ 53"
  define w :: real where "w = 1 / 2 ^ 50"
  define a2 where "a2 = (1 - u) * (1 - u)"
  define b2 where "b2 = (1 + u) * (1 + u)"
  define a3 where "a3 = a2 * (1 - u)"
  define b3 where "b3 = b2 * (1 + u)"
  define a5 where "a5 = a3 / b2 * (1 - u)"
  define b5 where "b5 = b3 / a2 * (1 + u)"
  note cs = u_def w_def a2_def b2_def a3_def b3_def a5_def b5_def
  have u: "0 \<le> u" "u \<le> 1" by (simp_all add: u_def)
  have c1: "1 / 2 \<le> 1 - u" "1 + u \<le> 2" by (simp_all add: u_def)
  have c2: "1 / 2 \<le> a2" "b2 \<le> 2" "0 < a2" "0 < b2" by (simp_all add: cs)
  have c3: "0 < a3" "0 < b3" "1 / 2 \<le> a3 / b2" "b3 / a2 \<le> 2" by (simp_all add: cs)
  have c5: "1 - w \<le> a5" "b5 \<le> 1 + w" "0 \<le> a5" by (simp_all add: cs)
  have w: "0 \<le> w" by (simp add: w_def)
  from lo hi have rho: "1 / 2 ^ 120 \<le> \<rho>" "\<rho> \<le> 2 ^ 120" by (simp_all add: \<rho>_def)
  from rho(1) have rpos: "0 < \<rho>" by (rule less_le_trans [rotated]) simp
  then have rnn: "0 \<le> \<rho>" by simp
  have rE: "1 / 2 ^ 400 \<le> \<rho>" "\<rho> \<le> 2 ^ 400"
    using rho by (simp_all add: order_trans [of "1 / 2 ^ 400" "1 / 2 ^ 120"]
                            order_trans [of _ "2 ^ 120" "2 ^ 400"])
  from sqrt_mid_bounds [OF rho] have Sm: "1 / 2 ^ 60 \<le> S" "S \<le> 2 ^ 60" by (simp_all add: S_def)
  have SE: "1 / 2 ^ 400 \<le> S" "S \<le> 2 ^ 400"
    using Sm by (simp_all add: order_trans [of "1 / 2 ^ 400" "1 / 2 ^ 60"]
                              order_trans [of _ "2 ^ 60" "2 ^ 400"])
  have Spos: "0 < S" using Sm(1) by (rule less_le_trans [rotated]) simp
  have S2E: "1 / 2 ^ 400 \<le> 2 * S" "2 * S \<le> 2 ^ 400"
    using Sm by (simp_all add: order_trans [of "1 / 2 ^ 400" "1 / 2 ^ 60"]
                              order_trans [of _ "2 * 2 ^ 60" "2 ^ 400"])
  have DE: "1 / 2 ^ 400 \<le> 1 + \<rho>" "1 + \<rho> \<le> 2 ^ 400"
    using rho rpos by (simp_all add: order_trans [of "1 / 2 ^ 400" "1"]
                                    order_trans [of _ "1 + 2 ^ 120" "2 ^ 400"])
  have Dpos: "0 < 1 + \<rho>" using rpos by simp
  have g1: "0 \<le> g" "g \<le> 1" using il_core_bounds [OF rnn] by (simp_all add: g_def S_def)
  have gE: "1 / 2 ^ 400 \<le> g" "g \<le> 2 ^ 400"
    using il_core_mid_lower [OF rho] g1(2)
    by (simp_all add: g_def S_def order_trans [of _ 1 "2 ^ 400"])
  (* the quotient *)
  have "\<exists>y. rnd \<rho> = Num y \<and> 1 * (1 - u) * \<rho> \<le> y \<and> y \<le> 1 * (1 + u) * \<rho>"
    by (rule rnd_factor_u [OF u_def rE]) simp_all
  then obtain r where r: "rnd \<rho> = Num r" "(1 - u) * \<rho> \<le> r" "r \<le> (1 + u) * \<rho>"
    by auto
  have "0 \<le> (1 - u) * \<rho>" using u rnn by simp
  with r(2) have r0: "0 \<le> r" by linarith
  (* the square root *)
  from sqrt_factor [OF u rnn r(2,3)]
  have sr: "(1 - u) * S \<le> sqrt r" "sqrt r \<le> (1 + u) * S" by (simp_all add: S_def)
  from rnd_factor_u [OF u_def SE c1 sr]
  obtain s where s: "rnd (sqrt r) = Num s" "a2 * S \<le> s" "s \<le> b2 * S"
    unfolding a2_def b2_def by blast
  (* the numerator *)
  have "a2 * (2 * S) = 2 * (a2 * S)" "b2 * (2 * S) = 2 * (b2 * S)" by simp_all
  with s(2,3) have s2: "a2 * (2 * S) \<le> 2 * s" "2 * s \<le> b2 * (2 * S)" by simp_all
  from rnd_factor_u [OF u_def S2E c2(1,2) s2]
  obtain n where n: "rnd (2 * s) = Num n" "a3 * (2 * S) \<le> n" "n \<le> b3 * (2 * S)"
    unfolding a3_def b3_def by blast
  (* the denominator *)
  from succ_factor [OF u(1) rnn r(2,3)]
  have d0: "(1 - u) * (1 + \<rho>) \<le> 1 + r" "1 + r \<le> (1 + u) * (1 + \<rho>)" .
  from rnd_factor_u [OF u_def DE c1 d0]
  obtain d where d: "rnd (1 + r) = Num d" "a2 * (1 + \<rho>) \<le> d" "d \<le> b2 * (1 + \<rho>)"
    unfolding a2_def b2_def by blast
  have "0 < a2 * (1 + \<rho>)" using c2(3) Dpos by simp
  with d(2) have dpos: "0 < d" by linarith
  (* the quotient *)
  have S2nn: "0 \<le> 2 * S" using Spos by simp
  from quotient_factor [OF c3(1,2) c2(3) S2nn Dpos n(2,3) d(2,3)]
  have q0: "a3 / b2 * g \<le> n / d" "n / d \<le> b3 / a2 * g" by (simp_all add: g_def)
  from rnd_factor_u [OF u_def gE c3(3,4) q0]
  obtain q where q: "rnd (n / d) = Num q" "a5 * g \<le> q" "q \<le> b5 * g"
    unfolding a5_def b5_def by blast
  have "(1 - w) * g \<le> a5 * g" using c5(1) g1(1) by (rule mult_right_mono)
  with q(2) have ql: "g - w * g \<le> q" by (simp add: algebra_simps)
  have "b5 * g \<le> (1 + w) * g" using c5(2) g1(1) by (rule mult_right_mono)
  with q(3) have qh: "q \<le> g + w * g" by (simp add: algebra_simps)
  have wg: "0 \<le> w * g" "w * g \<le> w" using w g1 by (simp_all add: mult_left_le)
  from ql qh wg have qg: "\<bar>q - g\<bar> \<le> w" by linarith
  have "0 \<le> a5 * g" using c5(3) g1(1) by simp
  with q(2) have qnn: "0 \<le> q" by linarith
  from qh wg g1(2) have q2: "q \<le> 1 + w" by linarith
  (* the subtraction *)
  have w4: "w \<le> 1 / 4" by (simp add: w_def)
  have "\<bar>q - 1\<bar> \<le> 2" using qnn q2 w4 by linarith
  then have "\<bar>q - 1\<bar> \<le> 2 powr of_int 1" by simp
  from rnd_abs_err [OF this]
  obtain il where il0: "rnd (q - 1) = Num il" "\<bar>il - (q - 1)\<bar> \<le> 2 powr of_int (1 - 53)"
    by auto
  define e1 :: real where "e1 = 1 / 2 ^ 52"
  define e2 :: real where "e2 = 1 / 2 ^ 46"
  have "(2::real) powr of_int (1 - 53) = e1" using p2_neg_nat [of 52] by (simp add: e1_def)
  with il0(2) have il: "\<bar>il - (q - 1)\<bar> \<le> e1" by simp
  (* the product *)
  have e4: "e1 \<le> 1 / 50" by (simp add: e1_def)
  from il qnn q2 w have "\<bar>il\<bar> \<le> 1 + w + e1" by linarith
  with w4 e4 have "\<bar>il\<bar> * 100 \<le> 128" by linarith
  then have "\<bar>\<bar>il\<bar> * 100\<bar> \<le> 2 powr of_int 7" by (simp add: p2_numeral)
  from rnd_abs_err [OF this]
  obtain x where x0: "rnd (\<bar>il\<bar> * 100) = Num x"
    "\<bar>x - \<bar>il\<bar> * 100\<bar> \<le> 2 powr of_int (7 - 53)" by auto
  have "(2::real) powr of_int (7 - 53) = e2" using p2_neg_nat [of 46] by (simp add: e2_def)
  with x0(2) have x: "\<bar>x - \<bar>il\<bar> * 100\<bar> \<le> e2" by simp
  (* the total *)
  from il qg g1 have "\<bar>\<bar>il\<bar> - (1 - g)\<bar> \<le> e1 + w" by linarith
  with x have "\<bar>x - (1 - g) * 100\<bar> \<le> e2 + 100 * (e1 + w)" by (rule total_err)
  also have "\<dots> \<le> 1 / 2 ^ 42" by (simp add: e1_def e2_def w_def)
  finally have err: "\<bar>x - (1 - 2 * sqrt (p / i) / (1 + p / i)) * 100\<bar> \<le> 1 / 2 ^ 42"
    by (simp add: g_def S_def \<rho>_def)
  (* the computation *)
  have ratio: "rn (Num p / Num i) = Num r" using i r(1) by (simp add: \<rho>_def)
  have root: "rn (jsqrt (Num r)) = Num s" using r0 s(1) by simp
  have num: "rn (Num 2 * Num s) = Num n" using n(1) by simp
  have den: "rn (Num 1 + Num r) = Num d" using d(1) by simp
  have quo: "rn (Num n / Num d) = Num q" using dpos q(1) by simp
  have sub: "rn (Num q - Num 1) = Num il" using il0(1) by simp
  have prod: "rn (\<bar>Num il\<bar> * Num 100) = Num x" using x0(1) by simp
  have "calculateImpermanentLoss p i = Num x"
    unfolding calculateImpermanentLoss_def Let_def ratio root num den quo sub prod ..
  with err show ?thesis by blast
qed

subsection \<open>Ratios below 2 ^ -120 or above 2 ^ 120\<close>

lemma rnd_inv_pow2: "j \<le> 1022 \<Longrightarrow> rnd (1 / 2 ^ j) = Num (1 / 2 ^ j)"
  using rnd_pow2 [of "- int j"] unfolding p2_neg_nat by simp

lemma rnd_nat_pow2: "j \<le> 1023 \<Longrightarrow> rnd (2 ^ j) = Num (2 ^ j)"
  using rnd_pow2 [of "int j"] unfolding p2_int_nat by simp

lemma inverse_ge:
  fixes x c :: real
  assumes "x \<le> 1 / c" and "0 < x" and "0 < c"
  shows "c \<le> 1 / x"
  using assms by (simp add: field_simps)

lemma inverse_le:
  fixes x c :: real
  assumes "1 / c \<le> x" and "0 < x" and "0 < c"
  shows "1 / x \<le> c"
  using assms by (simp add: field_simps)

lemma inverse_mono:
  fixes x c :: real
  assumes "c \<le> x" and "0 < c"
  shows "1 / x \<le> 1 / c"
  using assms by (simp add: field_simps)

lemma quotient_bound:
  assumes r: "0 \<le> r"
    and K: "sqrt r \<le> 2 powr of_int K" "- 1022 \<le> K" "K \<le> 1022"
    and L: "2 powr of_int L \<le> 1 + r" "- 1022 \<le> L" "L \<le> 1023"
  shows "\<exists>q. rn (Num 2 * rnd (sqrt r)) / rnd (1 + r) = Num q \<and> 0 \<le> q
             \<and> q \<le> 2 powr of_int (K + 1 - L)"
proof -
  have pK: "rnd (2 powr of_int K) = Num (2 powr of_int K)"
    using K(2,3) by (intro rnd_pow2) simp_all
  have pK1: "rnd (2 powr of_int (K + 1)) = Num (2 powr of_int (K + 1))"
    using K(2,3) by (intro rnd_pow2) simp_all
  have pL: "rnd (2 powr of_int L) = Num (2 powr of_int L)"
    using L(2,3) by (intro rnd_pow2) simp_all
  have dbl: "(2::real) powr of_int (K + 1) = 2 * 2 powr of_int K"
    unfolding p2_add by simp
  have "0 \<le> sqrt r" using r by simp
  from rnd_between [OF this K(1) rnd_zero pK]
  obtain s where s: "rnd (sqrt r) = Num s" "0 \<le> s" "s \<le> 2 powr of_int K" by blast
  have "0 \<le> 2 * s" "2 * s \<le> 2 powr of_int (K + 1)" using s(2,3) unfolding dbl by simp_all
  from rnd_between [OF this rnd_zero pK1]
  obtain n where n: "rnd (2 * s) = Num n" "0 \<le> n" "n \<le> 2 powr of_int (K + 1)" by blast
  have num: "rn (Num 2 * rnd (sqrt r)) = Num n" using s(1) n(1) by simp
  from rnd_mono [OF L(1)] pL have d: "jle (Num (2 powr of_int L)) (rnd (1 + r))" by simp
  have bnd: "0 \<le> (2::real) powr of_int (K + 1 - L)" by simp
  show ?thesis
  proof (cases "rnd (1 + r)")
    case (Num d')
    with d have d': "2 powr of_int L \<le> d'" by simp
    have pos: "0 < (2::real) powr of_int L" by simp
    with d' have dpos: "0 < d'" by linarith
    have "n / d' \<le> 2 powr of_int (K + 1) / 2 powr of_int L"
      using n(2,3) d' pos by (intro frac_le) simp_all
    then have "n / d' \<le> 2 powr of_int (K + 1 - L)" unfolding p2_quot .
    moreover have "0 \<le> n / d'" using n(2) dpos by simp
    moreover have "rn (Num 2 * rnd (sqrt r)) / rnd (1 + r) = Num (n / d')"
      using num Num dpos by simp
    ultimately show ?thesis by blast
  next
    case PosInf
    with num bnd show ?thesis by simp
  next
    case NegInf
    with d show ?thesis by simp
  next
    case NaN
    with d show ?thesis by simp
  qed
qed

lemma rnd_just_above_minus_1: "rnd (- 1 + 1 / 2 ^ 57) = Num (- 1)"
proof -
  have "rnd (- 1 + 1 / 2 ^ 57) = Num (of_int (- 9007199254740992) / 2 ^ 53)"
    by (rule rnd_frac) simp_all
  then show ?thesis by simp
qed

lemma loss_tail_small:
  assumes "0 \<le> q" and "q \<le> 1 / 2 ^ 57"
  shows "rn (\<bar>rn (rnd q - Num 1)\<bar> * Num 100) = Num 100"
proof -
  have p: "rnd (1 / 2 ^ 57) = Num (1 / 2 ^ 57)" by (rule rnd_inv_pow2) simp
  from rnd_between [OF assms rnd_zero p]
  obtain q' where q': "rnd q = Num q'" "0 \<le> q'" "q' \<le> 1 / 2 ^ 57" by blast
  then have "- 1 \<le> q' - 1" "q' - 1 \<le> - 1 + 1 / 2 ^ 57" by simp_all
  from rnd_between [OF this rnd_minus_1 rnd_just_above_minus_1]
  obtain il where il: "rnd (q' - 1) = Num il" "- 1 \<le> il" "il \<le> - 1" by blast
  then have "il = - 1" by simp
  with q'(1) il(1) show ?thesis by (simp add: rnd_100)
qed

lemma calculateImpermanentLoss_low:
  assumes "0 \<le> p" and "0 < i" and "p / i \<le> 1 / 2 ^ 120"
  shows "calculateImpermanentLoss p i = Num 100"
proof -
  from assms(1,2) have x0: "0 \<le> p / i" by simp
  have p: "rnd (1 / 2 ^ 120) = Num (1 / 2 ^ 120)" by (rule rnd_inv_pow2) simp
  from rnd_between [OF x0 assms(3) rnd_zero p]
  obtain r where r: "rnd (p / i) = Num r" "0 \<le> r" "r \<le> 1 / 2 ^ 120" by blast
  have "r \<le> ((1::real) / 2 ^ 60)\<^sup>2" using r(3) by (simp add: power2_eq_square)
  then have "sqrt r \<le> 1 / 2 ^ 60" by (intro real_le_lsqrt) simp_all
  then have K: "sqrt r \<le> 2 powr of_int (- 60)" using p2_neg_nat [of 60] by simp
  have L: "2 powr of_int 0 \<le> 1 + r" using r(2) by simp
  from quotient_bound [OF r(2) K _ _ L]
  obtain q where q: "rn (Num 2 * rnd (sqrt r)) / rnd (1 + r) = Num q" "0 \<le> q"
    "q \<le> 2 powr of_int (- 60 + 1 - 0)" by auto
  have "(2::real) powr of_int (- 60 + 1 - 0) = 1 / 2 ^ 59" using p2_neg_nat [of 59] by simp
  with q(3) have "q \<le> 1 / 2 ^ 59" by simp
  moreover have "(1::real) / 2 ^ 59 \<le> 1 / 2 ^ 57" by simp
  ultimately have "q \<le> 1 / 2 ^ 57" by (rule order_trans)
  from loss_tail_small [OF q(2) this]
  have x: "rn (\<bar>rn (rnd q - Num 1)\<bar> * Num 100) = Num 100" .
  have ratio: "rn (Num p / Num i) = Num r" using assms(2) r(1) by simp
  have root: "rn (jsqrt (Num r)) = rnd (sqrt r)" using r(2) by simp
  have den: "rn (Num 1 + Num r) = rnd (1 + r)" by simp
  show ?thesis
    unfolding calculateImpermanentLoss_def Let_def ratio root den q(1) rn.simps(1)
    using x .
qed

lemma sqrt_ceiling_exponent:
  assumes "1 < r" and "r \<le> 2 ^ 1024"
  shows "\<exists>K. 1 \<le> K \<and> K \<le> 512 \<and> 2 powr of_int (K - 1) < sqrt r \<and> sqrt r \<le> 2 powr of_int K"
proof -
  from assms(1) have s: "1 < sqrt r" by simp
  define K where "K = \<lceil>log 2 (sqrt r)\<rceil>"
  have up: "log 2 (sqrt r) \<le> of_int K" unfolding K_def by linarith
  have dn: "of_int K - 1 < log 2 (sqrt r)" unfolding K_def by linarith
  have "0 < log 2 (sqrt r)" using s by simp
  with up have "0 < (of_int K :: real)" by linarith
  then have K1: "1 \<le> K" by simp
  have sq: "((2::real) ^ 512) ^ 2 = 2 ^ 1024" by (simp only: power_mult [symmetric]) simp
  have "sqrt r \<le> sqrt (2 ^ 1024)" using assms(2) by (simp only: real_sqrt_le_iff)
  also have "\<dots> = 2 ^ 512"
    using sq by (intro real_sqrt_unique) (simp_all only: zero_le_power zero_le_numeral)
  also have "\<dots> = 2 powr of_int 512" by (rule p2_numeral [symmetric])
  finally have "sqrt r \<le> 2 powr of_int 512" .
  then have "log 2 (sqrt r) \<le> of_int 512" using s by (simp add: log_le_iff)
  with dn have "of_int K - 1 < (of_int 512 :: real)" by linarith
  then have K512: "K \<le> 512" by linarith
  have le: "sqrt r \<le> 2 powr of_int K" using up s by (simp add: log_le_iff)
  have "2 powr (of_int K - 1) < sqrt r" using dn s by (simp add: less_log_iff)
  then have lt: "2 powr of_int (K - 1) < sqrt r" by simp
  from K1 K512 lt le show ?thesis by blast
qed

lemma calculateImpermanentLoss_high:
  assumes "0 < i" and "2 ^ 120 \<le> p / i" and "p / i < overflow_threshold"
  shows "calculateImpermanentLoss p i = Num 100"
proof -
  have x0: "0 \<le> p / i" using assms(2) by (rule order_trans [rotated]) simp
  from rnd_nonneg_bounded [OF x0 assms(3)]
  obtain r where r: "rnd (p / i) = Num r" "0 \<le> r" "r \<le> 2 ^ 1024" by blast
  have p: "rnd (2 ^ 120) = Num (2 ^ 120)" by (rule rnd_nat_pow2) simp
  from rnd_mono [OF assms(2)] p r(1) have r120: "2 ^ 120 \<le> r" by simp
  have "(1::real) < 2 ^ 120" by simp
  with r120 have r1: "1 < r" by linarith
  from sqrt_ceiling_exponent [OF r1 r(3)]
  obtain K where K: "1 \<le> K" "K \<le> 512" "2 powr of_int (K - 1) < sqrt r"
    "sqrt r \<le> 2 powr of_int K" by blast
  have "((2::real) ^ 60)\<^sup>2 \<le> r" using r120 by (simp add: power2_eq_square)
  then have "2 ^ 60 \<le> sqrt r" by (rule real_le_rsqrt)
  with K(4) have "(2::real) ^ 60 \<le> 2 powr of_int K" by linarith
  then have p60: "(2::real) powr of_int 60 \<le> 2 powr of_int K"
    by (simp only: p2_numeral)
  have K60: "60 \<le> K"
  proof (rule ccontr)
    assume "\<not> 60 \<le> K"
    then have "K < 60" by simp
    then have "(2::real) powr of_int K < 2 powr of_int 60" by (rule p2_strict_mono)
    with p60 show False by linarith
  qed
  have "(2 powr of_int (K - 1)) ^ 2 < (sqrt r) ^ 2"
    using K(3) by (intro power_strict_mono) simp_all
  then have "(2 powr of_int (K - 1)) ^ 2 < r" using r(2) by simp
  moreover have "((2::real) powr of_int (K - 1)) ^ 2 = 2 powr of_int (K - 1 + (K - 1))"
    unfolding p2_add by (simp add: power2_eq_square)
  ultimately have L: "2 powr of_int (K - 1 + (K - 1)) \<le> 1 + r" by linarith
  have "\<exists>q. rn (Num 2 * rnd (sqrt r)) / rnd (1 + r) = Num q \<and> 0 \<le> q
             \<and> q \<le> 2 powr of_int (K + 1 - (K - 1 + (K - 1)))"
    using K(1,2) by (intro quotient_bound [OF r(2) K(4) _ _ L]) simp_all
  then obtain q where q: "rn (Num 2 * rnd (sqrt r)) / rnd (1 + r) = Num q" "0 \<le> q"
    "q \<le> 2 powr of_int (K + 1 - (K - 1 + (K - 1)))" by blast
  have "(2::real) powr of_int (K + 1 - (K - 1 + (K - 1))) \<le> 2 powr of_int (- 57)"
    using K60 by (intro p2_mono) simp
  also have "\<dots> = 1 / 2 ^ 57" using p2_neg_nat [of 57] by simp
  finally have "q \<le> 1 / 2 ^ 57" using q(3) by linarith
  from loss_tail_small [OF q(2) this]
  have x: "rn (\<bar>rn (rnd q - Num 1)\<bar> * Num 100) = Num 100" .
  have ratio: "rn (Num p / Num i) = Num r" using assms(1) r(1) by simp
  have root: "rn (jsqrt (Num r)) = rnd (sqrt r)" using r(2) by simp
  have den: "rn (Num 1 + Num r) = rnd (1 + r)" by simp
  show ?thesis
    unfolding calculateImpermanentLoss_def Let_def ratio root den q(1) rn.simps(1)
    using x .
qed

subsection \<open>Exchanging the two ratios\<close>

lemma calculateImpermanentLoss_exchange:
  assumes p: "0 < p" and i: "0 < i"
    and pi: "p / i < overflow_threshold" and ip: "i / p < overflow_threshold"
  shows "\<exists>x y. calculateImpermanentLoss p i = Num x \<and> calculateImpermanentLoss i p = Num y
               \<and> \<bar>x - y\<bar> \<le> 1 / 2 ^ 41"
proof -
  have inv: "i / p = 1 / (p / i)" by simp
  have pos: "0 < p / i" using p i by simp
  consider "p / i \<le> 1 / 2 ^ 120" | "2 ^ 120 \<le> p / i"
    | "1 / 2 ^ 120 \<le> p / i" "p / i \<le> 2 ^ 120" by linarith
  then show ?thesis
  proof cases
    case 1
    then have "2 ^ 120 \<le> i / p" unfolding inv using pos by (rule inverse_ge) simp
    from calculateImpermanentLoss_high [OF p this ip]
      calculateImpermanentLoss_low [OF less_imp_le [OF p] i 1]
    show ?thesis by simp
  next
    case 2
    then have "i / p \<le> 1 / 2 ^ 120" unfolding inv by (rule inverse_mono) simp
    from calculateImpermanentLoss_low [OF less_imp_le [OF i] p this]
      calculateImpermanentLoss_high [OF i 2 pi]
    show ?thesis by simp
  next
    case 3
    from 3(2) pos have a1: "1 / 2 ^ 120 \<le> i / p"
      unfolding inv by (rule inverse_mono)
    from 3(1) pos have a2: "i / p \<le> 2 ^ 120"
      unfolding inv by (rule inverse_le) simp
    note a = a1 a2
    from loss_middle_error [OF i 3]
    obtain x where x: "calculateImpermanentLoss p i = Num x"
      "\<bar>x - (1 - 2 * sqrt (p / i) / (1 + p / i)) * 100\<bar> \<le> 1 / 2 ^ 42" by blast
    from loss_middle_error [OF p a]
    obtain y where y: "calculateImpermanentLoss i p = Num y"
      "\<bar>y - (1 - 2 * sqrt (i / p) / (1 + i / p)) * 100\<bar> \<le> 1 / 2 ^ 42" by blast
    have "2 * sqrt (i / p) / (1 + i / p) = 2 * sqrt (p / i) / (1 + p / i)"
      unfolding inv using pos by (rule il_core_sym)
    with y(2) have "\<bar>y - (1 - 2 * sqrt (p / i) / (1 + p / i)) * 100\<bar> \<le> 1 / 2 ^ 42"
      by simp
    with x(2) have "\<bar>x - y\<bar> \<le> 1 / 2 ^ 42 + 1 / 2 ^ 42" by linarith
    then have "\<bar>x - y\<bar> \<le> 1 / 2 ^ 41" by simp
    with x(1) y(1) show ?thesis by blast
  qed
qed
section \<open>Impermanent-loss estimates\<close>

lemma estimateImpermanentLoss_cap: "estimateImpermanentLoss now position \<le> 15"
  by (simp add: estimateImpermanentLoss_def Let_def)

lemma estimateImpermanentLoss_nonneg:
  assumes "depositTimestamp position \<le> now"
  shows "0 \<le> estimateImpermanentLoss now position"
proof -
  from assms have "0 \<le> (now - depositTimestamp position) div (1000 * 60 * 60 * 24)"
    by (simp add: pos_imp_zdiv_nonneg_iff)
  then show ?thesis by (simp add: estimateImpermanentLoss_def Let_def)
qed

text \<open>
  C10, as the claim states it, fails in the doubles the engine computes with. Exchanging
  the ratios 1 and 10 changes the last digits of the result (\<open>42.50404254239311\<close> against
  \<open>42.504042542393094\<close>); the ratio \<open>2 ^ -120\<close> gives exactly 100, outside the half-open
  interval; and the quotient of \<open>2 ^ 600\<close> by \<open>2 ^ -600\<close> is too large for a double, so
  that the result is NaN.
\<close>

theorem impermanent_loss_symmetry_counterexample:
  "calculateImpermanentLoss 1 10 = Num (5981912192364416 / 2 ^ 47)
   \<and> calculateImpermanentLoss 10 1 = Num (5981912192364414 / 2 ^ 47)
   \<and> calculateImpermanentLoss 1 10 \<noteq> calculateImpermanentLoss 10 1
   \<and> calculateImpermanentLoss (1 / 2 ^ 120) 1 = Num 100
   \<and> calculateImpermanentLoss (2 ^ 600) (1 / 2 ^ 600) = NaN"
  using loss_1_10 loss_10_1 loss_tiny loss_overflow by simp

text \<open>
  C10, amended. For strictly positive ratios whose quotient is not too large for a
  double, the loss is a finite number in the closed interval \<open>[0, 100]\<close>; when the
  inverse quotient is not too large either, the loss for the exchanged ratios is finite
  as well, and the two results differ by at most \<open>10 ^ -12\<close>.
\<close>

theorem impermanent_loss_bounded_nearly_symmetric:
  assumes "0 < priceRatio" and "0 < initialRatio"
    and "priceRatio / initialRatio < overflow_threshold"
  shows "(\<exists>x. calculateImpermanentLoss priceRatio initialRatio = Num x \<and> 0 \<le> x \<and> x \<le> 100)
       \<and> (initialRatio / priceRatio < overflow_threshold \<longrightarrow>
            (\<exists>x y. calculateImpermanentLoss priceRatio initialRatio = Num x
                 \<and> calculateImpermanentLoss initialRatio priceRatio = Num y
                 \<and> \<bar>x - y\<bar> \<le> 1 / 10 ^ 12))"
proof (intro conjI impI)
  show "\<exists>x. calculateImpermanentLoss priceRatio initialRatio = Num x \<and> 0 \<le> x \<and> x \<le> 100"
    using assms by (intro calculateImpermanentLoss_range) simp_all
next
  assume "initialRatio / priceRatio < overflow_threshold"
  from calculateImpermanentLoss_exchange [OF assms this]
  obtain x y where xy: "calculateImpermanentLoss priceRatio initialRatio = Num x"
    "calculateImpermanentLoss initialRatio priceRatio = Num y" "\<bar>x - y\<bar> \<le> 1 / 2 ^ 41"
    by blast
  have "(1::real) / 2 ^ 41 \<le> 1 / 10 ^ 12" by simp
  with xy(3) have "\<bar>x - y\<bar> \<le> 1 / 10 ^ 12" by (rule order_trans)
  with xy(1,2) show "\<exists>x y. calculateImpermanentLoss priceRatio initialRatio = Num x
      \<and> calculateImpermanentLoss initialRatio priceRatio = Num y \<and> \<bar>x - y\<bar> \<le> 1 / 10 ^ 12"
    by blast
qed

theorem impermanent_loss_bounded_nearly_symmetric_witness:
  "(0::real) < 1 \<and> (0::real) < 10 \<and> (1::real) / 10 < overflow_threshold
   \<and> (10::real) / 1 < overflow_threshold
   \<and> calculateImpermanentLoss 1 10 = Num (5981912192364416 / 2 ^ 47)
   \<and> calculateImpermanentLoss 10 1 = Num (5981912192364414 / 2 ^ 47)
   \<and> \<bar>5981912192364416 / 2 ^ 47 - 5981912192364414 / 2 ^ 47\<bar> \<le> (1::real) / 10 ^ 12
   \<and> (0::real) \<le> 5981912192364416 / 2 ^ 47 \<and> (5981912192364416::real) / 2 ^ 47 \<le> 100"
proof -
  have h: "(0::real) < 1" "(0::real) < 10" "(1::real) / 10 < overflow_threshold"
    and h': "(10::real) / 1 < overflow_threshold"
    by (simp_all add: overflow_threshold_def)
  from impermanent_loss_bounded_nearly_symmetric [OF h] h'
  obtain x y x' where xy: "calculateImpermanentLoss 1 10 = Num x"
    "calculateImpermanentLoss 10 1 = Num y" "\<bar>x - y\<bar> \<le> 1 / 10 ^ 12"
    and x': "calculateImpermanentLoss 1 10 = Num x'" "0 \<le> x'" "x' \<le> 100"
    by blast
  from xy(1) have x: "x = 5981912192364416 / 2 ^ 47" by (simp only: loss_1_10 jsnum.inject)
  from xy(2) have y: "y = 5981912192364414 / 2 ^ 47" by (simp only: loss_10_1 jsnum.inject)
  from x'(1) have "x' = 5981912192364416 / 2 ^ 47" by (simp only: loss_1_10 jsnum.inject)
  with x'(2,3) have r: "(0::real) \<le> 5981912192364416 / 2 ^ 47"
    "(5981912192364416::real) / 2 ^ 47 \<le> 100" by (simp_all only:)
  from xy(3) have d: "\<bar>5981912192364416 / 2 ^ 47 - 5981912192364414 / 2 ^ 47\<bar> \<le> (1::real) / 10 ^ 12"
    by (simp only: x y)
  from h h' loss_1_10 loss_10_1 d r show ?thesis by (simp only: simp_thms)
qed

text \<open>
  C7, as the claim states it, fails in both models. A deposit time one millisecond after
  the clock gives \<^verbatim>\<open>Math.floor\<close> the value \<open>-1\<close> and a time-decay estimate of \<open>-0.1\<close>.
  The price-ratio formula returns NaN, which is neither non-negative nor at most 100,
  for the positive ratios \<open>2 ^ 600\<close> and \<open>2 ^ -600\<close> (their quotient is too large for a
  double), for a negative price ratio and for a zero initial ratio.
\<close>

theorem impermanent_loss_estimates_counterexample:
  "estimateImpermanentLoss 1700000000000
       (mkPosition ''1'' ''WETH'' ''USDC'' 1700000000001 1000) = - (1 / 10)
   \<and> calculateImpermanentLoss (2 ^ 600) (1 / 2 ^ 600) = NaN
   \<and> \<not> jle (Num 0) (calculateImpermanentLoss (2 ^ 600) (1 / 2 ^ 600))
   \<and> \<not> jle (calculateImpermanentLoss (2 ^ 600) (1 / 2 ^ 600)) (Num 100)
   \<and> calculateImpermanentLoss (- 1) 1 = NaN
   \<and> calculateImpermanentLoss 1 0 = NaN"
  using loss_overflow loss_negative_ratio loss_zero_initial
  by (simp add: estimateImpermanentLoss_def mkPosition_def)

text \<open>
  C7, amended. The time-decay estimate never exceeds 15, and it is non-negative for
  every position whose deposit time is not after the current time; the price-ratio
  formula yields a finite value in \<open>[0, 100]\<close> for a non-negative price ratio over a
  positive initial ratio, when their quotient is not too large for a double.
\<close>

theorem impermanent_loss_estimates_bounded:
  "estimateImpermanentLoss now position \<le> 15
   \<and> (depositTimestamp position \<le> now \<longrightarrow> 0 \<le> estimateImpermanentLoss now position)
   \<and> (0 \<le> priceRatio \<and> 0 < initialRatio \<and> priceRatio / initialRatio < overflow_threshold \<longrightarrow>
        (\<exists>x. calculateImpermanentLoss priceRatio initialRatio = Num x \<and> 0 \<le> x \<and> x \<le> 100))"
  using estimateImpermanentLoss_cap estimateImpermanentLoss_nonneg calculateImpermanentLoss_range
  by blast

theorem impermanent_loss_estimates_bounded_witness:
  "depositTimestamp (mkPosition ''1'' ''WETH'' ''USDC'' 1690496000000 3600) \<le> 1700000000000
   \<and> estimateImpermanentLoss 1700000000000 (mkPosition ''1'' ''WETH'' ''USDC'' 1690496000000 3600) = 11
   \<and> estimateImpermanentLoss 1700000000000 (mkPosition ''1'' ''WETH'' ''USDC'' 1600000000000 3600) = 15
   \<and> (0::real) \<le> 0 \<and> (0::real) < 1 \<and> (0::real) / 1 < overflow_threshold
   \<and> calculateImpermanentLoss 0 1 = Num 100"
  using impermanent_loss_estimates_bounded [of 1700000000000
          "mkPosition ''1'' ''WETH'' ''USDC'' 1690496000000 3600" 0 1]
    loss_zero_ratio
  by (simp add: estimateImpermanentLoss_def mkPosition_def overflow_threshold_def)

section \<open>The overall score of a pool\<close>

lemma readProperty_outside_prototype:
  "p \<notin> set objectPrototypeKeys \<Longrightarrow> readProperty table p \<noteq> Inherited"
  by (simp add: readProperty_def split: option.splits)

lemma smartContractRisk_values:
  "calculateSmartContractRisk p =
     (if p = ''Uniswap V3'' then Num 2 else if p = ''Aerodrome'' then Num 26
      else if p = ''BaseSwap'' then Num (3801 / 73) else if p = ''SushiSwap'' then Num 38
      else if p \<in> set objectPrototypeKeys then NaN else Num 70)"
  by (simp add: calculateSmartContractRisk_def protocolRiskDatabase_def readProperty_def
        numField_def Let_def)

lemma smartContractRisk_range:
  assumes "p \<notin> set objectPrototypeKeys"
  shows "\<exists>sc. calculateSmartContractRisk p = Num sc \<and> 0 \<le> sc \<and> sc \<le> 100"
proof -
  define v :: real where
    "v = (if p = ''Uniswap V3'' then 2 else if p = ''Aerodrome'' then 26
          else if p = ''BaseSwap'' then 3801 / 73 else if p = ''SushiSwap'' then 38 else 70)"
  have "calculateSmartContractRisk p = Num v"
    using assms by (simp add: smartContractRisk_values v_def)
  moreover have "0 \<le> v \<and> v \<le> 100" by (simp add: v_def)
  ultimately show ?thesis by blast
qed

lemma protocolRisk_values:
  "calculateProtocolRisk p =
     (if p = ''Uniswap V3'' then Inr (Num 25) else if p = ''Aerodrome'' then Inr (Num 25)
      else if p = ''BaseSwap'' then Inr (Num 55) else if p = ''SushiSwap'' then Inr (Num 25)
      else if p \<in> set objectPrototypeKeys then Inl TypeError else Inr (Num 60))"
  by (simp add: calculateProtocolRisk_def protocolRiskDatabase_def readProperty_def Let_def)

lemma protocolRisk_Num:
  "p \<notin> set objectPrototypeKeys \<Longrightarrow>
   \<exists>r. calculateProtocolRisk p = Inr (Num r) \<and> 0 \<le> r \<and> r \<le> 100"
  by (simp add: protocolRisk_values)

lemma impermanentLossRisk_range:
  "0 \<le> calculateImpermanentLossRisk pool \<and> calculateImpermanentLossRisk pool \<le> 100"
  by (simp add: calculateImpermanentLossRisk_def Let_def)

lemma liquidityRisk_zero_tvl:
  "tvl pool = 0 \<Longrightarrow>
   calculateLiquidityRisk pool = Num (if volume24h pool < 0 then 100 else 60)"
  by (simp add: calculateLiquidityRisk_def Let_def liquidityThreshold_def)

lemma liquidityRisk_nonzero_tvl:
  "tvl pool \<noteq> 0 \<Longrightarrow>
   calculateLiquidityRisk pool =
     Num (min 100
            ((if tvl pool < liquidityThreshold
              then (1 - tvl pool / liquidityThreshold) * 50 else 0)
             + (if volume24h pool / tvl pool < 0.1
                then (0.1 - volume24h pool / tvl pool) * 300 else 0)
             + 10))"
  by (simp add: calculateLiquidityRisk_def Let_def)

lemma liquidityRisk_Num:
  "\<exists>l. calculateLiquidityRisk pool = Num l \<and> 0 \<le> l \<and> l \<le> 100"
proof (cases "tvl pool = 0")
  case True
  then show ?thesis by (simp add: liquidityRisk_zero_tvl)
next
  case False
  define base where "base = (if tvl pool < liquidityThreshold
                             then (1 - tvl pool / liquidityThreshold) * 50 else 0)"
  define turnover where "turnover = (if volume24h pool / tvl pool < 0.1
                                     then (0.1 - volume24h pool / tvl pool) * 300 else 0)"
  have "0 \<le> base" by (simp add: base_def liquidityThreshold_def)
  moreover have "0 \<le> turnover"
  proof -
    have "0 \<le> (if q < 0.1 then (0.1 - q) * 300 else 0)" for q :: real
      by simp
    then show ?thesis unfolding turnover_def .
  qed
  ultimately have "0 \<le> min 100 (base + turnover + 10)" by simp
  moreover have "calculateLiquidityRisk pool = Num (min 100 (base + turnover + 10))"
    unfolding base_def turnover_def by (rule liquidityRisk_nonzero_tvl [OF False])
  ultimately show ?thesis by simp
qed

lemma round_percent:
  fixes x :: real
  assumes "0 \<le> x" and "x \<le> 100"
  shows "0 \<le> \<lfloor>x + 1 / 2\<rfloor>" and "\<lfloor>x + 1 / 2\<rfloor> \<le> 100"
proof -
  from assms show "0 \<le> \<lfloor>x + 1 / 2\<rfloor>" by simp
  from assms have "x + 1 / 2 < 101" by simp
  then have "\<lfloor>x + 1 / 2\<rfloor> < 101" by (simp add: floor_less_iff)
  then show "\<lfloor>x + 1 / 2\<rfloor> \<le> 100" by simp
qed

lemma weighted_range:
  fixes sc liq il pr :: real
  assumes "0 \<le> sc" "sc \<le> 100" "0 \<le> liq" "liq \<le> 100" "0 \<le> il" "il \<le> 100" "0 \<le> pr" "pr \<le> 100"
  shows "0 \<le> sc * 0.3 + liq * 0.25 + il * 0.25 + pr * 0.2"
    and "sc * 0.3 + liq * 0.25 + il * 0.25 + pr * 0.2 \<le> 100"
  using assms by simp_all

text \<open>
  For every pool whose protocol name is not a property inherited from
  \<^verbatim>\<open>Object.prototype\<close>, \<open>assessPool\<close> returns an assessment: the four factors are finite
  numbers, the overall score is their weighted sum rounded half up to an integer, that
  integer lies between 0 and 100, and the configured weights sum to 1. (No sign condition
  on the metrics is needed.)
\<close>

lemma assessPool_overall_outside_prototype:
  assumes "protocol pool \<notin> set objectPrototypeKeys"
  shows "\<exists>a sc liq il pr.
      assessPool pool = Inr a
    \<and> a_factors a
        = \<lparr> f_smartContract = Num sc, f_liquidity = Num liq,
            f_impermanentLoss = Num il, f_protocol = Num pr \<rparr>
    \<and> a_overall a
        = Num (of_int \<lfloor>sc * w_smartContract protocolRiskWeights
                        + liq * w_liquidity protocolRiskWeights
                        + il * w_impermanentLoss protocolRiskWeights
                        + pr * w_protocol protocolRiskWeights + 1 / 2\<rfloor>)
    \<and> 0 \<le> \<lfloor>sc * w_smartContract protocolRiskWeights
                        + liq * w_liquidity protocolRiskWeights
                        + il * w_impermanentLoss protocolRiskWeights
                        + pr * w_protocol protocolRiskWeights + 1 / 2\<rfloor>
    \<and> \<lfloor>sc * w_smartContract protocolRiskWeights
                        + liq * w_liquidity protocolRiskWeights
                        + il * w_impermanentLoss protocolRiskWeights
                        + pr * w_protocol protocolRiskWeights + 1 / 2\<rfloor> \<le> 100
    \<and> w_smartContract protocolRiskWeights + w_liquidity protocolRiskWeights
        + w_impermanentLoss protocolRiskWeights + w_protocol protocolRiskWeights = 1"
proof -
  obtain liq where liq: "calculateLiquidityRisk pool = Num liq" "0 \<le> liq" "liq \<le> 100"
    using liquidityRisk_Num by blast
  obtain pr where pr: "calculateProtocolRisk (protocol pool) = Inr (Num pr)" "0 \<le> pr" "pr \<le> 100"
    using protocolRisk_Num [OF assms] by blast
  obtain sc where sc: "calculateSmartContractRisk (protocol pool) = Num sc" "0 \<le> sc" "sc \<le> 100"
    using smartContractRisk_range [OF assms] by blast
  define il where "il = calculateImpermanentLossRisk pool"
  have il: "0 \<le> il" "il \<le> 100" using impermanentLossRisk_range by (simp_all add: il_def)
  let ?x = "sc * 0.3 + liq * 0.25 + il * 0.25 + pr * 0.2"
  have x: "0 \<le> ?x" "?x \<le> 100"
    using weighted_range [OF sc(2,3) liq(2,3) il pr(2,3)] by simp_all
  obtain a where a: "assessPool pool = Inr a"
    by (simp add: assessPool_def Let_def pr(1))
  have fac: "a_factors a
        = \<lparr> f_smartContract = Num sc, f_liquidity = Num liq,
            f_impermanentLoss = Num il, f_protocol = Num pr \<rparr>"
    using a by (auto simp add: assessPool_def Let_def liq(1) pr(1) sc(1) il_def)
  have ov: "a_overall a = Num (of_int \<lfloor>?x + 1 / 2\<rfloor>)"
    using a by (auto simp add: assessPool_def Let_def weightedOverall_def protocolRiskWeights_def
          liq(1) pr(1) sc(1) il_def)
  from a fac ov round_percent [OF x] show ?thesis
    by (intro exI [of _ a] exI [of _ sc] exI [of _ liq] exI [of _ il] exI [of _ pr])
       (simp add: protocolRiskWeights_def)
qed

text \<open>The first mock pool: factors 2, about 30.38, 35 and 25 give 21.945, rounded to 22.\<close>

lemma assessPool_first_mock_pool:
  "map_sum id a_overall (assessPool (mockPools ! 0)) = Inr (Num 22)
   \<and> map_sum id (f_smartContract \<circ> a_factors) (assessPool (mockPools ! 0)) = Inr (Num 2)
   \<and> map_sum id (f_impermanentLoss \<circ> a_factors) (assessPool (mockPools ! 0)) = Inr (Num 35)
   \<and> map_sum id (f_protocol \<circ> a_factors) (assessPool (mockPools ! 0)) = Inr (Num 25)"
  by (simp add: mockPools_def assessPool_def Let_def weightedOverall_def protocolRiskWeights_def
        smartContractRisk_values calculateLiquidityRisk_def calculateImpermanentLossRisk_def
        protocolRisk_values liquidityThreshold_def toLowerCase_def lowerChar_def)

text \<open>
  C3 at an inherited key. The first mock pool with its protocol renamed to
  \<^verbatim>\<open>constructor\<close> has the same finite, non-negative metrics. The table read returns the
  inherited \<^verbatim>\<open>Object\<close> function instead of falling to the default for unknown protocols:
  the smart-contract factor is NaN, and \<open>calculateProtocolRisk\<close> throws, so \<open>assessPool\<close>
  returns no assessment at all.
\<close>

theorem assessPool_inherited_key_throws:
  "protocolRiskDatabase ''constructor'' = Inherited
   \<and> calculateSmartContractRisk ''constructor'' = NaN
   \<and> calculateProtocolRisk ''constructor'' = Inl TypeError
   \<and> assessPool ((mockPools ! 0) \<lparr> protocol := ''constructor'' \<rparr>) = Inl TypeError"
  by (simp add: mockPools_def assessPool_def smartContractRisk_values protocolRisk_values
        protocolRiskDatabase_def readProperty_def objectPrototypeKeys_def)

section \<open>Degenerate portfolios\<close>





section \<open>Diversification score\<close>
















end
